theory Spec2Isabelle
  imports Complex_Main "HOL-Library.Char_ord" "HOL-Library.List_Lexorder"
    "HOL-Library.Product_Lexorder"
begin

section \<open>The constraint model and its scoped edits\<close>

text \<open>
  Both analyzers (\<^verbatim>\<open>FSEOF_FS\<close> in \<^verbatim>\<open>fseof_fs.py\<close>, \<^verbatim>\<open>FVSEOF\<close> in
  \<^verbatim>\<open>fvseof/fvseof.py\<close>) work on a cobra model that they share with their caller.
  The model is embedded as a record that is passed in and returned. Fluxes and bounds are
  Python floats; they are embedded as reals, so rounding, infinities and NaN are outside
  the embedding except where a division by zero is written out (\<open>np_div\<close>).
  An assignment to a bound raises cobra's \<^verbatim>\<open>ValueError\<close> when it would put the lower
  bound above the upper bound, and changes nothing then. An assignment to the objective is
  embedded as the update of that field alone: cobra's check that the objective names a
  reaction is not part of the embedding (both analyzers only assign the biomass id that
  construction has checked and the sink id that it has added).
\<close>

datatype error =
    AssertionError string
  | KeyError string
  | IndexError
  | ValueError
  | SolverError string
  | FitError string

record reaction =
  r_id :: string
  r_name :: string
  gene_reaction_rule :: string
  lower_bound :: real
  upper_bound :: real
  r_metabolites :: "(string \<times> real) list"

text \<open>
  What a \<^verbatim>\<open>with model:\<close> block has to take back when it ends. cobra registers one
  such entry on the innermost open block for every assignment to a bound or to the
  objective.
\<close>

datatype undo =
    ResetLowerBound string real
  | ResetUpperBound string real
  | ResetObjective string

record model =
  reactions :: "reaction list"
  metabolites :: "string list"
  objective :: string
  contexts :: "undo list list"

definition reaction_ids :: "model \<Rightarrow> string list" where
  \<comment> \<open>\<^verbatim>\<open>[r.id for r in self.model.reactions]\<close>\<close>
  "reaction_ids m = map r_id (reactions m)"

fun get_by_id :: "reaction list \<Rightarrow> string \<Rightarrow> error + reaction" where
  "get_by_id [] i = Inl (KeyError i)"
| "get_by_id (r # rs) i = (if r_id r = i then Inr r else get_by_id rs i)"

fun update_by_id :: "(reaction \<Rightarrow> reaction) \<Rightarrow> string \<Rightarrow> reaction list \<Rightarrow> reaction list" where
  "update_by_id f i [] = []"
| "update_by_id f i (r # rs) = (if r_id r = i then f r # rs else r # update_by_id f i rs)"

definition record_undo :: "undo \<Rightarrow> model \<Rightarrow> model" where
  "record_undo u m =
     (case contexts m of [] \<Rightarrow> m | h # hs \<Rightarrow> m\<lparr>contexts := (u # h) # hs\<rparr>)"

definition set_objective :: "string \<Rightarrow> model \<Rightarrow> model" where
  \<comment> \<open>\<^verbatim>\<open>model.objective = reaction_id\<close>\<close>
  "set_objective i m = (record_undo (ResetObjective (objective m)) m)\<lparr>objective := i\<rparr>"

definition set_lower_bound :: "string \<Rightarrow> real \<Rightarrow> model \<Rightarrow> error + model" where
  \<comment> \<open>\<^verbatim>\<open>reaction.lower_bound = v\<close> on the reaction that \<open>get_by_id\<close> found; the setter
      first checks \<^verbatim>\<open>v <= upper_bound\<close>\<close>
  "set_lower_bound i v m =
     (case get_by_id (reactions m) i of
        Inl e \<Rightarrow> Inl e
      | Inr r \<Rightarrow>
          if v > upper_bound r then Inl ValueError
          else Inr ((record_undo (ResetLowerBound i (lower_bound r)) m)
                  \<lparr>reactions := update_by_id (\<lambda>r. r\<lparr>lower_bound := v\<rparr>) i (reactions m)\<rparr>))"

definition set_upper_bound :: "string \<Rightarrow> real \<Rightarrow> model \<Rightarrow> error + model" where
  \<comment> \<open>\<^verbatim>\<open>reaction.upper_bound = v\<close>; the setter first checks \<^verbatim>\<open>lower_bound <= v\<close>\<close>
  "set_upper_bound i v m =
     (case get_by_id (reactions m) i of
        Inl e \<Rightarrow> Inl e
      | Inr r \<Rightarrow>
          if lower_bound r > v then Inl ValueError
          else Inr ((record_undo (ResetUpperBound i (upper_bound r)) m)
                  \<lparr>reactions := update_by_id (\<lambda>r. r\<lparr>upper_bound := v\<rparr>) i (reactions m)\<rparr>))"

fun apply_undo :: "undo \<Rightarrow> model \<Rightarrow> model" where
  "apply_undo (ResetLowerBound i v) m =
     m\<lparr>reactions := update_by_id (\<lambda>r. r\<lparr>lower_bound := v\<rparr>) i (reactions m)\<rparr>"
| "apply_undo (ResetUpperBound i v) m =
     m\<lparr>reactions := update_by_id (\<lambda>r. r\<lparr>upper_bound := v\<rparr>) i (reactions m)\<rparr>"
| "apply_undo (ResetObjective i) m = m\<lparr>objective := i\<rparr>"

definition enter_context :: "model \<Rightarrow> model" where
  "enter_context m = m\<lparr>contexts := [] # contexts m\<rparr>"

definition exit_context :: "model \<Rightarrow> model" where
  \<comment> \<open>the newest entry is undone first\<close>
  "exit_context m =
     (case contexts m of [] \<Rightarrow> m | h # hs \<Rightarrow> fold apply_undo h (m\<lparr>contexts := hs\<rparr>))"

text \<open>
  \<^verbatim>\<open>with self.model as model: body\<close>. The body returns a value or raises; either way the
  block is left through \<open>exit_context\<close>. The third component is the state of the solver,
  which the model does not own (repeated solves of one model may differ).
\<close>

definition with_model ::
  "(model \<Rightarrow> 's \<Rightarrow> (error + 'a) \<times> model \<times> 's) \<Rightarrow> model \<Rightarrow> 's \<Rightarrow> (error + 'a) \<times> model \<times> 's" where
  "with_model body m s =
     (case body (enter_context m) s of (r, m', s') \<Rightarrow> (r, exit_context m', s'))"

text \<open>
  The solver is not part of the repository: \<^verbatim>\<open>loopless_solution\<close> and
  \<^verbatim>\<open>flux_variability_analysis\<close> are parameters. A call reads the model, returns the
  flux of every reaction (or, for the variability analysis, its minimum and maximum) or
  raises with a message, and moves the solver's own state on.
\<close>

type_synonym 's solver = "'s \<Rightarrow> model \<Rightarrow> (string + (string \<Rightarrow> real)) \<times> 's"

type_synonym 's fva_solver =
  "'s \<Rightarrow> model \<Rightarrow> real \<Rightarrow> int \<Rightarrow> (string + (string \<Rightarrow> real \<times> real)) \<times> 's"

section \<open>Construction of an analyzer\<close>

datatype variant = FSEOF_FS | FVSEOF

record analyzer =
  biomass_reaction_id :: string
  target_metabolite_id :: string
  product_sink_reaction_id :: string
  product_max_theoretical_yield :: real
  maximal_biomass_growth :: real
  check_essential_reaction_threshold :: real

fun sink_suffix :: "variant \<Rightarrow> string" where
  "sink_suffix FSEOF_FS = ''_sink''"
| "sink_suffix FVSEOF = ''_fvseof_sink''"

definition product_sink_reaction :: "variant \<Rightarrow> string \<Rightarrow> reaction" where
  \<comment> \<open>\<^verbatim>\<open>Reaction(id)\<close>, \<^verbatim>\<open>add_metabolites({metabolite: -1})\<close>, \<^verbatim>\<open>bounds = (0.0, 1000.0)\<close>\<close>
  "product_sink_reaction v metabolite_id =
     \<lparr>r_id = metabolite_id @ sink_suffix v, r_name = '''', gene_reaction_rule = '''',
      lower_bound = 0, upper_bound = 1000, r_metabolites = [(metabolite_id, - 1)]\<rparr>"

definition add_reactions :: "reaction list \<Rightarrow> model \<Rightarrow> model" where
  \<comment> \<open>cobra skips (with a warning) a reaction whose id the model already has\<close>
  "add_reactions rs m =
     m\<lparr>reactions := reactions m @ filter (\<lambda>r. r_id r \<notin> set (reaction_ids m)) rs\<rparr>"

definition add_product_sink_reaction ::
  "variant \<Rightarrow> string \<Rightarrow> model \<Rightarrow> (error + string) \<times> model" where
  "add_product_sink_reaction v metabolite_id m =
     (let sink_id = metabolite_id @ sink_suffix v in
      if metabolite_id \<notin> set (metabolites m)
      then (Inl (KeyError metabolite_id), m)
      else (Inr sink_id, add_reactions [product_sink_reaction v metabolite_id] m))"

definition calc_product_maximal_theoretical_yield ::
  "'s solver \<Rightarrow> string \<Rightarrow> model \<Rightarrow> 's \<Rightarrow> (error + real) \<times> model \<times> 's" where
  "calc_product_maximal_theoretical_yield loopless_solution sink_id =
     with_model (\<lambda>m s.
       let m1 = set_objective sink_id m in
       case loopless_solution s m1 of
         (Inl e, s') \<Rightarrow> (Inl (SolverError e), m1, s')
       | (Inr sol, s') \<Rightarrow> (Inr (sol sink_id), m1, s'))"

definition calc_maximal_biomass_growth ::
  "'s solver \<Rightarrow> string \<Rightarrow> model \<Rightarrow> 's \<Rightarrow> (error + real) \<times> model \<times> 's" where
  "calc_maximal_biomass_growth loopless_solution biomass_id =
     with_model (\<lambda>m s.
       let m1 = set_objective biomass_id m in
       case loopless_solution s m1 of
         (Inl e, s') \<Rightarrow> (Inl (SolverError e), m1, s')
       | (Inr sol, s') \<Rightarrow> (Inr (sol biomass_id), m1, s'))"

definition init ::
  "variant \<Rightarrow> 's solver \<Rightarrow> string \<Rightarrow> string \<Rightarrow> real \<Rightarrow> model \<Rightarrow> 's
     \<Rightarrow> (error + analyzer) \<times> model \<times> 's" where
  \<comment> \<open>\<^verbatim>\<open>__init__(self, model, biomass_reaction_id, target_metabolite_id, essential_reaction_threshold)\<close>\<close>
  "init v loopless_solution biomass_id target_id essential_reaction_threshold m s =
     (if biomass_id \<notin> set (reaction_ids m)
      then (Inl (AssertionError ''Biomass reaction not in model.''), m, s)
      else if target_id \<notin> set (metabolites m)
      then (Inl (AssertionError ''Target metabolite not in model.''), m, s)
      else
        case add_product_sink_reaction v target_id m of
          (Inl e, m1) \<Rightarrow> (Inl e, m1, s)
        | (Inr sink_id, m1) \<Rightarrow>
            (case calc_product_maximal_theoretical_yield loopless_solution sink_id m1 s of
               (Inl e, m2, s2) \<Rightarrow> (Inl e, m2, s2)
             | (Inr yield, m2, s2) \<Rightarrow>
                 (case calc_maximal_biomass_growth loopless_solution biomass_id m2 s2 of
                    (Inl e, m3, s3) \<Rightarrow> (Inl e, m3, s3)
                  | (Inr growth, m3, s3) \<Rightarrow>
                      (Inr \<lparr>biomass_reaction_id = biomass_id,
                            target_metabolite_id = target_id,
                            product_sink_reaction_id = sink_id,
                            product_max_theoretical_yield = yield,
                            maximal_biomass_growth = growth,
                            check_essential_reaction_threshold = essential_reaction_threshold\<rparr>,
                       m3, s3))))"

section \<open>Essentiality check\<close>

text \<open>
  \<^verbatim>\<open>sol.fluxes[...] / self.maximal_biomass_growth\<close> divides two numpy floats: a zero
  divisor raises nothing and gives an infinity or NaN. The zero divisor is taken as
  \<^verbatim>\<open>+0.0\<close>.
\<close>

datatype fval = Fin real | PosInf | NegInf | NaN

definition np_div :: "real \<Rightarrow> real \<Rightarrow> fval" where
  "np_div x y =
     (if y = 0 then (if 0 < x then PosInf else if x < 0 then NegInf else NaN)
      else Fin (x / y))"

fun np_less :: "fval \<Rightarrow> real \<Rightarrow> bool" where
  "np_less (Fin x) t = (x < t)"
| "np_less PosInf t = False"
| "np_less NegInf t = True"
| "np_less NaN t = False"

definition check_essential_reaction ::
  "'s solver \<Rightarrow> analyzer \<Rightarrow> string \<Rightarrow> model \<Rightarrow> 's \<Rightarrow> (error + bool) \<times> model \<times> 's" where
  "check_essential_reaction loopless_solution self rid =
     with_model (\<lambda>m s.
       let m1 = set_objective (biomass_reaction_id self) m in
       case get_by_id (reactions m1) rid of
         Inl e \<Rightarrow> (Inl e, m1, s)
       | Inr reaction \<Rightarrow>
           (case set_lower_bound rid 0 m1 of
              Inl e \<Rightarrow> (Inl e, m1, s)
            | Inr m2 \<Rightarrow>
           (case set_upper_bound rid 0 m2 of
              Inl e \<Rightarrow> (Inl e, m2, s)
            | Inr m3 \<Rightarrow>
           (case loopless_solution s m3 of
              (Inr sol, s') \<Rightarrow>
                (if np_less (np_div (sol (biomass_reaction_id self)) (maximal_biomass_growth self))
                      (check_essential_reaction_threshold self)
                 then (Inr True, m3, s')
                 else (Inr False, m3, s'))
            | (Inl e, s') \<Rightarrow> (Inr True, m3, s')))))"

section \<open>Ranking a table\<close>

text \<open>
  \<^verbatim>\<open>df.sort_values(by=[...], ascending=[False, False])\<close> orders the rows by the tuple of
  the two key columns, largest first; rows with equal keys keep their order. Strings are
  compared character by character, as Python compares them.
\<close>

fun insort_desc :: "('a \<Rightarrow> 'k::linorder) \<Rightarrow> 'a \<Rightarrow> 'a list \<Rightarrow> 'a list" where
  "insort_desc f x [] = [x]"
| "insort_desc f x (y # ys) = (if f y \<le> f x then x # y # ys else y # insort_desc f x ys)"

definition sort_desc :: "('a \<Rightarrow> 'k::linorder) \<Rightarrow> 'a list \<Rightarrow> 'a list" where
  "sort_desc f xs = foldr (insort_desc f) xs []"

section \<open>FSEOF\_FS: two production levels, averaged solutions\<close>

fun append_fluxes ::
  "string list \<Rightarrow> (string \<Rightarrow> real) \<Rightarrow> (string \<rightharpoonup> real list) \<Rightarrow> (string \<rightharpoonup> real list)" where
  \<comment> \<open>the inner loop \<^verbatim>\<open>for r in self.model.reactions\<close>\<close>
  "append_fluxes [] sol flux_list = flux_list"
| "append_fluxes (r # rs) sol flux_list =
     append_fluxes rs sol
       (case flux_list r of
          Some fs \<Rightarrow> flux_list(r \<mapsto> fs @ [sol r])
        | None \<Rightarrow> flux_list(r \<mapsto> [sol r]))"

fun sample_solutions ::
  "'s solver \<Rightarrow> nat \<Rightarrow> model \<Rightarrow> 's \<Rightarrow> (string \<rightharpoonup> real list)
     \<Rightarrow> (error + (string \<rightharpoonup> real list)) \<times> 's" where
  \<comment> \<open>the outer loop \<^verbatim>\<open>for _ in range(n)\<close>\<close>
  "sample_solutions loopless_solution 0 m s flux_list = (Inr flux_list, s)"
| "sample_solutions loopless_solution (Suc k) m s flux_list =
     (case loopless_solution s m of
        (Inl e, s') \<Rightarrow> (Inl (SolverError e), s')
      | (Inr sol, s') \<Rightarrow>
          sample_solutions loopless_solution k m s' (append_fluxes (reaction_ids m) sol flux_list))"

definition get_average_fluxes_from_n_solutions ::
  "'s solver \<Rightarrow> int \<Rightarrow> model \<Rightarrow> 's \<Rightarrow> (error + (string \<rightharpoonup> real)) \<times> 's" where
  "get_average_fluxes_from_n_solutions loopless_solution n m s =
     (case sample_solutions loopless_solution (nat n) m s Map.empty of
        (Inl e, s') \<Rightarrow> (Inl e, s')
      | (Inr flux_list, s') \<Rightarrow>
          (Inr (\<lambda>r. map_option (\<lambda>fs. sum_list fs / real (length fs)) (flux_list r)), s'))"

definition average_fluxes_at ::
  "'s solver \<Rightarrow> analyzer \<Rightarrow> real \<Rightarrow> int \<Rightarrow> model \<Rightarrow> 's
     \<Rightarrow> (error + (string \<rightharpoonup> real)) \<times> model \<times> 's" where
  \<comment> \<open>each of the two \<^verbatim>\<open>with self.model as model:\<close> blocks of \<^verbatim>\<open>run\<close>\<close>
  "average_fluxes_at loopless_solution self fraction n =
     with_model (\<lambda>m s.
       let m1 = set_objective (biomass_reaction_id self) m in
       case get_by_id (reactions m1) (product_sink_reaction_id self) of
         Inl e \<Rightarrow> (Inl e, m1, s)
       | Inr sink \<Rightarrow>
           (case set_lower_bound (product_sink_reaction_id self)
                   (product_max_theoretical_yield self * fraction) m1 of
              Inl e \<Rightarrow> (Inl e, m1, s)
            | Inr m2 \<Rightarrow>
                (case get_average_fluxes_from_n_solutions loopless_solution n m2 s of
                   (r, s') \<Rightarrow> (r, m2, s'))))"

record reaction_data =
  target_type :: string
  reaction_id :: string
  reaction_name :: string
  mean_flux_low :: real
  mean_flux_high :: real
  essential :: "bool option"

record target_row = reaction_data +
  abs_diff_mean_fluxes :: real

fun classify_reactions ::
  "'s solver \<Rightarrow> analyzer \<Rightarrow> bool \<Rightarrow> (string \<rightharpoonup> real) \<Rightarrow> (string \<rightharpoonup> real) \<Rightarrow> string list
     \<Rightarrow> reaction_data list \<Rightarrow> model \<Rightarrow> 's \<Rightarrow> (error + reaction_data list) \<times> model \<times> 's" where
  \<comment> \<open>the loop \<^verbatim>\<open>for r_id in [r.id for r in self.model.reactions]\<close> of \<^verbatim>\<open>run\<close>\<close>
  "classify_reactions ls self check_essentiality fluxes_low fluxes_high [] df_data m s =
     (Inr df_data, m, s)"
| "classify_reactions ls self check_essentiality fluxes_low fluxes_high (i # ids) df_data m s =
     (case fluxes_low i of
        None \<Rightarrow> (Inl (KeyError i), m, s)
      | Some mean_flux_low_r \<Rightarrow>
     (case fluxes_high i of
        None \<Rightarrow> (Inl (KeyError i), m, s)
      | Some mean_flux_high_r \<Rightarrow>
          if mean_flux_low_r * mean_flux_high_r > 0 then
            (case get_by_id (reactions m) i of
               Inl e \<Rightarrow> (Inl e, m, s)
             | Inr r \<Rightarrow>
                 (let row = \<lparr>target_type =
                               (if \<bar>mean_flux_high_r\<bar> > \<bar>mean_flux_low_r\<bar> then ''Up'' else ''Down''),
                             reaction_id = i, reaction_name = r_name r,
                             mean_flux_low = mean_flux_low_r, mean_flux_high = mean_flux_high_r,
                             essential = None\<rparr> in
                  if check_essentiality then
                    (case check_essential_reaction ls self i m s of
                       (Inl e, m', s') \<Rightarrow> (Inl e, m', s')
                     | (Inr b, m', s') \<Rightarrow>
                         classify_reactions ls self check_essentiality fluxes_low fluxes_high ids
                           (df_data @ [row\<lparr>essential := Some b\<rparr>]) m' s')
                  else
                    classify_reactions ls self check_essentiality fluxes_low fluxes_high ids
                      (df_data @ [row]) m s))
          else classify_reactions ls self check_essentiality fluxes_low fluxes_high ids df_data m s))"

definition frame_columns :: "bool \<Rightarrow> reaction_data list \<Rightarrow> string list" where
  \<comment> \<open>\<^verbatim>\<open>pd.DataFrame(df_data)\<close> takes its columns from the keys of the records it is given\<close>
  "frame_columns check_essentiality df_data =
     (if df_data = [] then []
      else [''target_type'', ''reaction_id'', ''reaction_name'', ''mean_flux_low'', ''mean_flux_high'']
           @ (if check_essentiality then [''essential''] else []))"

definition add_abs_diff :: "reaction_data \<Rightarrow> target_row" where
  \<comment> \<open>\<^verbatim>\<open>lambda x: abs(x["mean_flux_low"] - x["mean_flux_high"])\<close>, row by row\<close>
  "add_abs_diff x =
     \<lparr>target_type = target_type x, reaction_id = reaction_id x, reaction_name = reaction_name x,
      mean_flux_low = mean_flux_low x, mean_flux_high = mean_flux_high x, essential = essential x,
      abs_diff_mean_fluxes = \<bar>mean_flux_low x - mean_flux_high x\<bar>\<rparr>"

definition rank_targets :: "bool \<Rightarrow> reaction_data list \<Rightarrow> error + target_row list" where
  \<comment> \<open>lines 221 to 227: the frame, the score column, the sort. On a frame without rows
      \<^verbatim>\<open>df.apply(..., axis=1)\<close> gives back a frame, not a column, and pandas refuses to
      assign it as the column \<^verbatim>\<open>abs_diff_mean_fluxes\<close> (line 224)\<close>
  "rank_targets check_essentiality df_data =
     (if df_data = [] then Inl ValueError
      else
        let columns = frame_columns check_essentiality df_data @ [''abs_diff_mean_fluxes''];
            df = map add_abs_diff df_data in
        if ''target_type'' \<notin> set columns then Inl (KeyError ''target_type'')
        else Inr (sort_desc (\<lambda>x. (target_type x, abs_diff_mean_fluxes x)) df))"

definition FSEOF_FS_run ::
  "'s solver \<Rightarrow> analyzer \<Rightarrow> real \<Rightarrow> real \<Rightarrow> bool \<Rightarrow> int \<Rightarrow> model \<Rightarrow> 's
     \<Rightarrow> (error + target_row list) \<times> model \<times> 's" where
  \<comment> \<open>\<^verbatim>\<open>FSEOF_FS.run(fraction_low, fraction_high, check_essentiality, n)\<close>\<close>
  "FSEOF_FS_run ls self fraction_low fraction_high check_essentiality n m s =
     (case average_fluxes_at ls self fraction_low n m s of
        (Inl e, m1, s1) \<Rightarrow> (Inl e, m1, s1)
      | (Inr fluxes_low, m1, s1) \<Rightarrow>
     (case average_fluxes_at ls self fraction_high n m1 s1 of
        (Inl e, m2, s2) \<Rightarrow> (Inl e, m2, s2)
      | (Inr fluxes_high, m2, s2) \<Rightarrow>
     (case classify_reactions ls self check_essentiality fluxes_low fluxes_high
             (reaction_ids m2) [] m2 s2 of
        (Inl e, m3, s3) \<Rightarrow> (Inl e, m3, s3)
      | (Inr df_data, m3, s3) \<Rightarrow> (rank_targets check_essentiality df_data, m3, s3))))"

section \<open>FVSEOF: a sweep of production levels\<close>

text \<open>
  \<^verbatim>\<open>np.polyfit(x, y, 1)[0]\<close> belongs to numpy: it is a parameter that returns the leading
  coefficient of the fitted line or raises with a message. On the single abscissa \<open>0\<close> numpy
  raises (a linear algebra error for one ordinate, a type error for any other number of
  them); the statement about one-step runs has this as its hypothesis.
\<close>

type_synonym polyfit = "real list \<Rightarrow> real list \<Rightarrow> string + real"

definition steps_lower_bounds :: "int \<Rightarrow> real \<Rightarrow> real list" where
  \<comment> \<open>\<^verbatim>\<open>[n/n_steps*self.product_max_theoretical_yield for n in range(0, n_steps)]\<close>\<close>
  "steps_lower_bounds n_steps yield =
     map (\<lambda>n. real_of_int n / real_of_int n_steps * yield) [0..n_steps - 1]"

fun append_step ::
  "string list \<Rightarrow> (string \<Rightarrow> real) \<Rightarrow> (string \<rightharpoonup> real list) \<Rightarrow> error + (string \<rightharpoonup> real list)" where
  \<comment> \<open>\<^verbatim>\<open>for r_id in ...: per_step_fluxes[r_id].append(...)\<close>\<close>
  "append_step [] flux per_step_fluxes = Inr per_step_fluxes"
| "append_step (i # ids) flux per_step_fluxes =
     (case per_step_fluxes i of
        None \<Rightarrow> Inl (KeyError i)
      | Some fs \<Rightarrow> append_step ids flux (per_step_fluxes(i \<mapsto> fs @ [flux i])))"

definition probe_step ::
  "'s fva_solver \<Rightarrow> 's solver \<Rightarrow> analyzer \<Rightarrow> bool \<Rightarrow> int \<Rightarrow> real \<Rightarrow> (string \<rightharpoonup> real list)
     \<Rightarrow> model \<Rightarrow> 's \<Rightarrow> (error + (string \<rightharpoonup> real list)) \<times> model \<times> 's" where
  \<comment> \<open>the \<^verbatim>\<open>with self.model as model:\<close> block of one step\<close>
  "probe_step flux_variability_analysis loopless_solution self fva fva_n_processes
       step_lower_bound per_step_fluxes =
     with_model (\<lambda>m s.
       let m1 = set_objective (biomass_reaction_id self) m in
       case get_by_id (reactions m1) (product_sink_reaction_id self) of
         Inl e \<Rightarrow> (Inl e, m1, s)
       | Inr sink \<Rightarrow>
           (case set_lower_bound (product_sink_reaction_id self) step_lower_bound m1 of
              Inl e \<Rightarrow> (Inl e, m1, s)
            | Inr m2 \<Rightarrow>
                if fva then
                  (case flux_variability_analysis s m2 0.95 fva_n_processes of
                     (Inl e, s') \<Rightarrow> (Inl (SolverError e), m2, s')
                   | (Inr fva_df, s') \<Rightarrow>
                       (append_step (reaction_ids m2)
                          (\<lambda>i. (snd (fva_df i) + fst (fva_df i)) / 2) per_step_fluxes, m2, s'))
                else
                  (case loopless_solution s m2 of
                     (Inl e, s') \<Rightarrow> (Inl (SolverError e), m2, s')
                   | (Inr fba_sol, s') \<Rightarrow>
                       (append_step (reaction_ids m2) fba_sol per_step_fluxes, m2, s'))))"

fun sweep ::
  "'s fva_solver \<Rightarrow> 's solver \<Rightarrow> analyzer \<Rightarrow> bool \<Rightarrow> int \<Rightarrow> real list \<Rightarrow> (string \<rightharpoonup> real list)
     \<Rightarrow> model \<Rightarrow> 's \<Rightarrow> (error + (string \<rightharpoonup> real list)) \<times> model \<times> 's" where
  \<comment> \<open>\<^verbatim>\<open>for i, step_lower_bound in enumerate(steps_lower_bounds)\<close>\<close>
  "sweep fa ls self fva fva_n_processes [] per_step_fluxes m s = (Inr per_step_fluxes, m, s)"
| "sweep fa ls self fva fva_n_processes (step_lower_bound # rest) per_step_fluxes m s =
     (case probe_step fa ls self fva fva_n_processes step_lower_bound per_step_fluxes m s of
        (Inl e, m', s') \<Rightarrow> (Inl e, m', s')
      | (Inr per_step_fluxes', m', s') \<Rightarrow>
          sweep fa ls self fva fva_n_processes rest per_step_fluxes' m' s')"

fun assign_target_types ::
  "(string \<rightharpoonup> real list) \<Rightarrow> string list \<Rightarrow> (string \<rightharpoonup> string) \<Rightarrow> error + (string \<rightharpoonup> string)" where
  \<comment> \<open>\<^verbatim>\<open>xs[0]\<close> and \<^verbatim>\<open>xs[-1]\<close> raise on an empty list\<close>
  "assign_target_types per_step_fluxes [] target_types = Inr target_types"
| "assign_target_types per_step_fluxes (i # ids) target_types =
     (case per_step_fluxes i of
        None \<Rightarrow> Inl (KeyError i)
      | Some fs \<Rightarrow>
          if fs = [] then Inl IndexError
          else if \<not> hd fs = 0 \<and> \<not> last fs = 0 then
            (if hd fs * last fs \<ge> 0 then
               (if \<bar>last fs\<bar> > \<bar>hd fs\<bar>
                then assign_target_types per_step_fluxes ids (target_types(i \<mapsto> ''Up''))
                else assign_target_types per_step_fluxes ids (target_types(i \<mapsto> ''Down'')))
             else if hd fs * last fs < 0
             then assign_target_types per_step_fluxes ids (target_types(i \<mapsto> ''Reverse''))
             else assign_target_types per_step_fluxes ids target_types)
          else assign_target_types per_step_fluxes ids target_types)"

fun find_slopes ::
  "polyfit \<Rightarrow> real list \<Rightarrow> (string \<rightharpoonup> real list) \<Rightarrow> string list \<Rightarrow> (string \<rightharpoonup> real)
     \<Rightarrow> error + (string \<rightharpoonup> real)" where
  \<comment> \<open>\<^verbatim>\<open>slopes[r_id] = np.polyfit(steps_lower_bounds, per_step_fluxes[r_id], 1)[0]\<close>\<close>
  "find_slopes pf lbs per_step_fluxes [] slopes = Inr slopes"
| "find_slopes pf lbs per_step_fluxes (i # ids) slopes =
     (case per_step_fluxes i of
        None \<Rightarrow> Inl (KeyError i)
      | Some fs \<Rightarrow>
          (case pf lbs fs of
             Inl e \<Rightarrow> Inl (FitError e)
           | Inr c \<Rightarrow> find_slopes pf lbs per_step_fluxes ids (slopes(i \<mapsto> c))))"

fun find_essentialities ::
  "'s solver \<Rightarrow> analyzer \<Rightarrow> (string \<rightharpoonup> string) \<Rightarrow> string list \<Rightarrow> (string \<rightharpoonup> bool)
     \<Rightarrow> model \<Rightarrow> 's \<Rightarrow> (error + (string \<rightharpoonup> bool)) \<times> model \<times> 's" where
  \<comment> \<open>the loop under \<^verbatim>\<open>if check_essentiality:\<close>\<close>
  "find_essentialities ls self target_types [] essentialities m s = (Inr essentialities, m, s)"
| "find_essentialities ls self target_types (i # ids) essentialities m s =
     (if i \<in> dom target_types then
        (case check_essential_reaction ls self i m s of
           (Inl e, m', s') \<Rightarrow> (Inl e, m', s')
         | (Inr b, m', s') \<Rightarrow>
             find_essentialities ls self target_types ids (essentialities(i \<mapsto> b)) m' s')
      else find_essentialities ls self target_types ids essentialities m s)"

record fvseof_row =
  fv_reaction_id :: string
  fv_target_type :: string
  slope :: real
  fv_gene_reaction_rule :: string
  essentiality :: "bool option"
  step_columns :: "real list"

fun dict_set :: "fvseof_row \<Rightarrow> fvseof_row list \<Rightarrow> fvseof_row list" where
  \<comment> \<open>\<^verbatim>\<open>df_data[r_id] = {...}\<close>: a key that is there keeps its place\<close>
  "dict_set x [] = [x]"
| "dict_set x (y # ys) =
     (if fv_reaction_id y = fv_reaction_id x then x # ys else y # dict_set x ys)"

fun combine ::
  "bool \<Rightarrow> nat \<Rightarrow> (string \<rightharpoonup> real list) \<Rightarrow> (string \<rightharpoonup> string) \<Rightarrow> (string \<rightharpoonup> real)
     \<Rightarrow> (string \<rightharpoonup> bool) \<Rightarrow> reaction list \<Rightarrow> string list \<Rightarrow> fvseof_row list
     \<Rightarrow> error + fvseof_row list" where
  \<comment> \<open>the loop under \<^verbatim>\<open># Combine into big df\<close>; the second argument is
      \<^verbatim>\<open>len(steps_lower_bounds)\<close>\<close>
  "combine check_essentiality k per_step_fluxes target_types slopes essentialities rs [] df_data =
     Inr df_data"
| "combine check_essentiality k per_step_fluxes target_types slopes essentialities rs (i # ids) df_data =
     (case target_types i of
        None \<Rightarrow>
          combine check_essentiality k per_step_fluxes target_types slopes essentialities rs ids df_data
      | Some t \<Rightarrow>
     (case slopes i of
        None \<Rightarrow> Inl (KeyError i)
      | Some c \<Rightarrow>
     (case get_by_id rs i of
        Inl e \<Rightarrow> Inl e
      | Inr r \<Rightarrow>
          if check_essentiality \<and> essentialities i = None then Inl (KeyError i)
          else
     (case per_step_fluxes i of
        None \<Rightarrow> Inl (KeyError i)
      | Some fs \<Rightarrow>
          if length fs < k then Inl IndexError
          else
            combine check_essentiality k per_step_fluxes target_types slopes essentialities rs ids
              (dict_set
                 \<lparr>fv_reaction_id = i, fv_target_type = t, slope = c,
                  fv_gene_reaction_rule = gene_reaction_rule r,
                  essentiality = (if check_essentiality then essentialities i else None),
                  step_columns = take k fs\<rparr>
                 df_data)))))"

definition rank_fvseof :: "fvseof_row list \<Rightarrow> error + fvseof_row list" where
  \<comment> \<open>lines 206 to 210; a frame built from no record has no column\<close>
  "rank_fvseof df_data =
     (let columns = (if df_data = [] then [] else [''target_type'', ''slope'', ''gene_reaction_rule'']) in
      if ''target_type'' \<notin> set columns then Inl (KeyError ''target_type'')
      else Inr (sort_desc (\<lambda>x. (fv_target_type x, \<bar>slope x\<bar>)) df_data))"

definition finish_run ::
  "'s solver \<Rightarrow> polyfit \<Rightarrow> analyzer \<Rightarrow> bool \<Rightarrow> real list \<Rightarrow> (string \<rightharpoonup> real list)
     \<Rightarrow> model \<Rightarrow> 's \<Rightarrow> (error + fvseof_row list) \<times> model \<times> 's" where
  \<comment> \<open>lines 164 to 210 of \<^verbatim>\<open>FVSEOF.run\<close>: what follows the sweep\<close>
  "finish_run ls pf self check_essentiality lbs per_step_fluxes m s =
     (case assign_target_types per_step_fluxes (reaction_ids m) Map.empty of
        Inl e \<Rightarrow> (Inl e, m, s)
      | Inr target_types \<Rightarrow>
     (case find_slopes pf lbs per_step_fluxes (reaction_ids m) Map.empty of
        Inl e \<Rightarrow> (Inl e, m, s)
      | Inr slopes \<Rightarrow>
     (case (if check_essentiality
            then find_essentialities ls self target_types (reaction_ids m) Map.empty m s
            else (Inr Map.empty, m, s)) of
        (Inl e, m', s') \<Rightarrow> (Inl e, m', s')
      | (Inr essentialities, m', s') \<Rightarrow>
     (case combine check_essentiality (length lbs) per_step_fluxes target_types slopes
             essentialities (reactions m') (reaction_ids m') [] of
        Inl e \<Rightarrow> (Inl e, m', s')
      | Inr df_data \<Rightarrow> (rank_fvseof df_data, m', s')))))"

definition FVSEOF_run ::
  "'s fva_solver \<Rightarrow> 's solver \<Rightarrow> polyfit \<Rightarrow> analyzer \<Rightarrow> int \<Rightarrow> bool \<Rightarrow> bool \<Rightarrow> int
     \<Rightarrow> model \<Rightarrow> 's \<Rightarrow> (error + fvseof_row list) \<times> model \<times> 's" where
  \<comment> \<open>\<^verbatim>\<open>FVSEOF.run(n_steps, check_essentiality, fva, fva_n_processes)\<close>\<close>
  "FVSEOF_run fa ls pf self n_steps check_essentiality fva fva_n_processes m s =
     (let lbs = steps_lower_bounds n_steps (product_max_theoretical_yield self) in
      case sweep fa ls self fva fva_n_processes lbs
             (map_of (map (\<lambda>i. (i, [])) (reaction_ids m))) m s of
        (Inl e, m', s') \<Rightarrow> (Inl e, m', s')
      | (Inr per_step_fluxes, m', s') \<Rightarrow>
          finish_run ls pf self check_essentiality lbs per_step_fluxes m' s')"

section \<open>A small model for the examples\<close>

text \<open>
  Four reactions around one product \<open>P\<close>, and a solver whose fluxes depend on the forced
  production level only: \<open>R1\<close> falls with it, \<open>R2\<close> changes direction, \<open>R3\<close> rises,
  \<open>R4\<close> is idle until production is forced. Without \<open>R1\<close> nothing is feasible, and
  without \<open>R2\<close> growth drops to a fifth.
\<close>

definition toy_model :: model where
  "toy_model =
     \<lparr>reactions =
        [\<lparr>r_id = ''BIO'', r_name = ''growth'', gene_reaction_rule = [],
          lower_bound = 0, upper_bound = 1000, r_metabolites = []\<rparr>,
         \<lparr>r_id = ''R1'', r_name = ''one'', gene_reaction_rule = ''g1'',
          lower_bound = - 1000, upper_bound = 1000, r_metabolites = [(''P'', 1)]\<rparr>,
         \<lparr>r_id = ''R2'', r_name = ''two'', gene_reaction_rule = ''g2'',
          lower_bound = - 1000, upper_bound = 1000, r_metabolites = []\<rparr>,
         \<lparr>r_id = ''R3'', r_name = ''three'', gene_reaction_rule = ''g3'',
          lower_bound = - 1000, upper_bound = 1000, r_metabolites = []\<rparr>,
         \<lparr>r_id = ''R4'', r_name = ''four'', gene_reaction_rule = ''g4'',
          lower_bound = - 1000, upper_bound = 1000, r_metabolites = []\<rparr>],
      metabolites = [''P''], objective = ''BIO'', contexts = []\<rparr>"

definition level_of :: "string \<Rightarrow> model \<Rightarrow> real" where
  "level_of i m = (case get_by_id (reactions m) i of Inl e \<Rightarrow> 0 | Inr r \<Rightarrow> lower_bound r)"

definition knocked_out :: "string \<Rightarrow> model \<Rightarrow> bool" where
  "knocked_out i m =
     (case get_by_id (reactions m) i of
        Inl e \<Rightarrow> False
      | Inr r \<Rightarrow> lower_bound r = 0 \<and> upper_bound r = 0)"

definition toy_fluxes :: "string \<Rightarrow> model \<Rightarrow> string \<Rightarrow> real" where
  "toy_fluxes sink m i =
     (let l = level_of sink m in
      if i = ''BIO'' then (if knocked_out ''BIO'' m then 0 else if knocked_out ''R2'' m then 1 / 5 else 1)
      else if i = ''R1'' then 2 - l
      else if i = ''R2'' then 1 - 4 * l
      else if i = ''R3'' then 1 + l
      else if i = ''R4'' then l
      else if i = sink then 1
      else 0)"

definition toy_solver :: "string \<Rightarrow> nat solver" where
  "toy_solver sink s m =
     (if knocked_out ''R1'' m then (Inl ''infeasible'', Suc s)
      else (Inr (toy_fluxes sink m), Suc s))"

definition toy_fva :: "string \<Rightarrow> nat fva_solver" where
  "toy_fva sink s m fraction_of_optimum processes =
     (Inr (\<lambda>i. (toy_fluxes sink m i - 1, toy_fluxes sink m i + 1)), Suc s)"

definition idle_solver :: "nat solver" where
  "idle_solver s m = (Inr (\<lambda>i. 0), Suc s)"

definition line_fit :: polyfit where
  \<comment> \<open>the least-squares line in closed form, for the examples\<close>
  "line_fit xs ys =
     (let n = real (length xs);
          sx = sum_list xs; sy = sum_list ys;
          sxx = sum_list (map (\<lambda>x. x * x) xs);
          sxy = sum_list (map (\<lambda>(x, y). x * y) (zip xs ys));
          d = n * sxx - sx * sx in
      if d = 0 then Inl ''undetermined'' else Inr ((n * sxy - sx * sy) / d))"

definition toy_analyzer :: "variant \<Rightarrow> analyzer" where
  "toy_analyzer v =
     \<lparr>biomass_reaction_id = ''BIO'', target_metabolite_id = ''P'',
      product_sink_reaction_id = ''P'' @ sink_suffix v,
      product_max_theoretical_yield = 1, maximal_biomass_growth = 1,
      check_essential_reaction_threshold = 1 / 2\<rparr>"

definition toy_model_with_sink :: "variant \<Rightarrow> model" where
  "toy_model_with_sink v = add_reactions [product_sink_reaction v ''P''] toy_model"

section \<open>Derived notions used in the statements\<close>

definition knockout_model :: "analyzer \<Rightarrow> string \<Rightarrow> model \<Rightarrow> model" where
  \<comment> \<open>the model \<^verbatim>\<open>check_essential_reaction\<close> hands to the solver (lines 113 to 117)\<close>
  "knockout_model self rid m =
     (let m1 = set_objective (biomass_reaction_id self) (enter_context m) in
      case set_lower_bound rid 0 m1 of
        Inl e \<Rightarrow> m1
      | Inr m2 \<Rightarrow> (case set_upper_bound rid 0 m2 of Inl e \<Rightarrow> m2 | Inr m3 \<Rightarrow> m3))"

definition init_default ::
  "variant \<Rightarrow> 's solver \<Rightarrow> string \<Rightarrow> string \<Rightarrow> model \<Rightarrow> 's \<Rightarrow> (error + analyzer) \<times> model \<times> 's" where
  \<comment> \<open>construction that leaves \<^verbatim>\<open>essential_reaction_threshold = 0.5\<close> at its default\<close>
  "init_default v ls b t = init v ls b t (1 / 2)"

definition reverts_to :: "model \<Rightarrow> model \<Rightarrow> bool" where
  \<comment> \<open>inside a block: leaving it now gives \<open>m0\<close>\<close>
  "reverts_to m0 m \<longleftrightarrow> contexts m \<noteq> [] \<and> exit_context m = m0"

text \<open>What the loops of the two runs establish for each row they emit.\<close>

definition classified :: "(string \<rightharpoonup> real) \<Rightarrow> (string \<rightharpoonup> real) \<Rightarrow> 'a reaction_data_scheme \<Rightarrow> bool" where
  "classified lo hi x \<longleftrightarrow>
     lo (reaction_id x) = Some (mean_flux_low x) \<and> hi (reaction_id x) = Some (mean_flux_high x)
     \<and> 0 < mean_flux_low x * mean_flux_high x
     \<and> target_type x = (if \<bar>mean_flux_high x\<bar> > \<bar>mean_flux_low x\<bar> then ''Up'' else ''Down'')"

definition trend :: "real list \<Rightarrow> string" where
  "trend fs =
     (if hd fs * last fs \<ge> 0 then (if \<bar>last fs\<bar> > \<bar>hd fs\<bar> then ''Up'' else ''Down'')
      else ''Reverse'')"

definition fv_classified ::
  "polyfit \<Rightarrow> real list \<Rightarrow> (string \<rightharpoonup> real list) \<Rightarrow> fvseof_row \<Rightarrow> bool" where
  "fv_classified pf lbs psf x \<longleftrightarrow>
     (\<exists>fs. psf (fv_reaction_id x) = Some fs \<and> fs \<noteq> [] \<and> hd fs \<noteq> 0 \<and> last fs \<noteq> 0
        \<and> fv_target_type x = trend fs \<and> pf lbs fs = Inr (slope x)
        \<and> length lbs \<le> length fs \<and> step_columns x = take (length lbs) fs)"

text \<open>The tables the two runs return on the small model.\<close>

definition toy_targets :: "target_row list" where
  "toy_targets =
     [\<lparr>target_type = ''Up'', reaction_id = ''R3'', reaction_name = ''three'',
       mean_flux_low = 6 / 5, mean_flux_high = 13 / 10, essential = Some False,
       abs_diff_mean_fluxes = 1 / 10\<rparr>,
      \<lparr>target_type = ''Up'', reaction_id = ''R4'', reaction_name = ''four'',
       mean_flux_low = 1 / 5, mean_flux_high = 3 / 10, essential = Some False,
       abs_diff_mean_fluxes = 1 / 10\<rparr>,
      \<lparr>target_type = ''Down'', reaction_id = ''R1'', reaction_name = ''one'',
       mean_flux_low = 9 / 5, mean_flux_high = 17 / 10, essential = Some True,
       abs_diff_mean_fluxes = 1 / 10\<rparr>,
      \<lparr>target_type = ''Down'', reaction_id = ''BIO'', reaction_name = ''growth'',
       mean_flux_low = 1, mean_flux_high = 1, essential = Some True,
       abs_diff_mean_fluxes = 0\<rparr>,
      \<lparr>target_type = ''Down'', reaction_id = ''P_sink'', reaction_name = [],
       mean_flux_low = 1, mean_flux_high = 1, essential = Some False,
       abs_diff_mean_fluxes = 0\<rparr>]"

definition toy_fv_targets :: "fvseof_row list" where
  "toy_fv_targets =
     [\<lparr>fv_reaction_id = ''R3'', fv_target_type = ''Up'', slope = 1,
       fv_gene_reaction_rule = ''g3'', essentiality = Some False, step_columns = [1, 3 / 2]\<rparr>,
      \<lparr>fv_reaction_id = ''R2'', fv_target_type = ''Reverse'', slope = - 4,
       fv_gene_reaction_rule = ''g2'', essentiality = Some True, step_columns = [1, - 1]\<rparr>,
      \<lparr>fv_reaction_id = ''R1'', fv_target_type = ''Down'', slope = - 1,
       fv_gene_reaction_rule = ''g1'', essentiality = Some True, step_columns = [2, 3 / 2]\<rparr>,
      \<lparr>fv_reaction_id = ''BIO'', fv_target_type = ''Down'', slope = 0,
       fv_gene_reaction_rule = [], essentiality = Some True, step_columns = [1, 1]\<rparr>,
      \<lparr>fv_reaction_id = ''P_fvseof_sink'', fv_target_type = ''Down'', slope = 0,
       fv_gene_reaction_rule = [], essentiality = Some False, step_columns = [1, 1]\<rparr>]"

text \<open>
  A solver that also writes down, at every call, the lower bound the sink reaction has in
  the model it is given: it shows which production levels a run probes, and in which order.
\<close>

definition recording :: "string \<Rightarrow> 's solver \<Rightarrow> ('s \<times> real list) solver" where
  "recording sink ls =
     (\<lambda>(s, tr) m. case ls s m of (r, s') \<Rightarrow> (r, (s', tr @ [level_of sink m])))"

definition recording_fva :: "string \<Rightarrow> 's fva_solver \<Rightarrow> ('s \<times> real list) fva_solver" where
  "recording_fva sink fa =
     (\<lambda>(s, tr) m f p. case fa s m f p of (r, s') \<Rightarrow> (r, (s', tr @ [level_of sink m])))"

text \<open>
  What construction returns on the small model under the solver that lets nothing flow,
  for either variant, and the small model with one more reaction: an uptake fixed at
  \<open>-10\<close>, so that both its bounds are negative.
\<close>

definition idle_analyzer :: analyzer where
  "idle_analyzer =
     \<lparr>biomass_reaction_id = ''BIO'', target_metabolite_id = ''P'',
      product_sink_reaction_id = ''P_fvseof_sink'',
      product_max_theoretical_yield = 0, maximal_biomass_growth = 0,
      check_essential_reaction_threshold = 1 / 2\<rparr>"

definition idle_fs_analyzer :: analyzer where
  "idle_fs_analyzer =
     \<lparr>biomass_reaction_id = ''BIO'', target_metabolite_id = ''P'',
      product_sink_reaction_id = ''P_sink'',
      product_max_theoretical_yield = 0, maximal_biomass_growth = 0,
      check_essential_reaction_threshold = 1 / 2\<rparr>"

definition uptake_model :: model where
  "uptake_model =
     add_reactions
       [\<lparr>r_id = ''EX'', r_name = ''uptake'', gene_reaction_rule = [],
         lower_bound = - 10, upper_bound = - 10, r_metabolites = []\<rparr>]
       (toy_model_with_sink FSEOF_FS)"

section \<open>Lemmas: scoped edits, construction, essentiality\<close>

lemma get_by_id_update:
  "get_by_id (update_by_id f i rs) j =
     (case get_by_id rs j of Inl e \<Rightarrow> Inl e | Inr r \<Rightarrow> if j = i then Inr (f r) else Inr r)"
  if "\<And>r. r_id (f r) = r_id r"
  using that by (induction rs) (auto split: sum.splits)

lemma map_r_id_update: "(\<And>r. r_id (f r) = r_id r) \<Longrightarrow> map r_id (update_by_id f i rs) = map r_id rs"
  by (induction rs) auto

lemma update_lower_back:
  "get_by_id rs i = Inr r \<Longrightarrow>
   update_by_id (\<lambda>r'. r'\<lparr>lower_bound := lower_bound r\<rparr>) i
     (update_by_id (\<lambda>r'. r'\<lparr>lower_bound := v\<rparr>) i rs) = rs"
  by (induction rs) (auto split: if_splits)

lemma update_upper_back:
  "get_by_id rs i = Inr r \<Longrightarrow>
   update_by_id (\<lambda>r'. r'\<lparr>upper_bound := upper_bound r\<rparr>) i
     (update_by_id (\<lambda>r'. r'\<lparr>upper_bound := v\<rparr>) i rs) = rs"
  by (induction rs) (auto split: if_splits)

lemma reverts_enter: "reverts_to m (enter_context m)"
  by (simp add: reverts_to_def enter_context_def exit_context_def)

lemma reverts_set_objective: "reverts_to m0 m \<Longrightarrow> reverts_to m0 (set_objective i m)"
  by (cases "contexts m") (auto simp: reverts_to_def set_objective_def record_undo_def exit_context_def)

lemma reverts_set_lower_bound:
  "set_lower_bound i v m = Inr m' \<Longrightarrow> reverts_to m0 m' \<longleftrightarrow> reverts_to m0 m"
  by (cases "contexts m")
     (auto simp: reverts_to_def set_lower_bound_def record_undo_def exit_context_def update_lower_back
           split: sum.splits if_splits)

lemma reverts_set_upper_bound:
  "set_upper_bound i v m = Inr m' \<Longrightarrow> reverts_to m0 m' \<longleftrightarrow> reverts_to m0 m"
  by (cases "contexts m")
     (auto simp: reverts_to_def set_upper_bound_def record_undo_def exit_context_def update_upper_back
           split: sum.splits if_splits)

lemma with_model_reverts:
  assumes "\<And>m1 s1. reverts_to m m1 \<Longrightarrow> reverts_to m (fst (snd (body m1 s1)))"
  shows "fst (snd (with_model body m s)) = m"
proof -
  have "reverts_to m (fst (snd (body (enter_context m) s)))"
    by (rule assms) (rule reverts_enter)
  then show ?thesis
    by (auto simp add: with_model_def reverts_to_def split: prod.splits)
qed

lemma calc_yield_frame: "fst (snd (calc_product_maximal_theoretical_yield ls i m s)) = m"
  unfolding calc_product_maximal_theoretical_yield_def
  by (rule with_model_reverts) (auto simp: Let_def reverts_set_objective split: prod.splits sum.splits)

lemma calc_growth_frame: "fst (snd (calc_maximal_biomass_growth ls i m s)) = m"
  unfolding calc_maximal_biomass_growth_def
  by (rule with_model_reverts) (auto simp: Let_def reverts_set_objective split: prod.splits sum.splits)

lemma check_essential_frame: "fst (snd (check_essential_reaction ls self i m s)) = m"
  unfolding check_essential_reaction_def
  by (rule with_model_reverts)
     (auto simp: Let_def reverts_set_objective reverts_set_lower_bound reverts_set_upper_bound
           split: prod.splits sum.splits)

lemma average_fluxes_frame: "fst (snd (average_fluxes_at ls self fr n m s)) = m"
  unfolding average_fluxes_at_def
  by (rule with_model_reverts)
     (auto simp: Let_def reverts_set_objective reverts_set_lower_bound
           split: prod.splits sum.splits)

lemma probe_step_frame: "fst (snd (probe_step fa ls self fva np lb psf m s)) = m"
  unfolding probe_step_def
  by (rule with_model_reverts)
     (auto simp: Let_def reverts_set_objective reverts_set_lower_bound
           split: prod.splits sum.splits)

lemma check_essential_frameD: "check_essential_reaction ls self i m s = (r, m', s') \<Longrightarrow> m' = m"
  using check_essential_frame [of ls self i m s] by simp

lemma average_fluxes_frameD: "average_fluxes_at ls self fr n m s = (r, m', s') \<Longrightarrow> m' = m"
  using average_fluxes_frame [of ls self fr n m s] by simp

lemma probe_step_frameD: "probe_step fa ls self fva np lb psf m s = (r, m', s') \<Longrightarrow> m' = m"
  using probe_step_frame [of fa ls self fva np lb psf m s] by simp

lemma calc_yield_frameD: "calc_product_maximal_theoretical_yield ls i m s = (r, m', s') \<Longrightarrow> m' = m"
  using calc_yield_frame [of ls i m s] by simp

lemma calc_growth_frameD: "calc_maximal_biomass_growth ls i m s = (r, m', s') \<Longrightarrow> m' = m"
  using calc_growth_frame [of ls i m s] by simp

lemma classify_frameD:
  "classify_reactions ls self chk lo hi ids acc m s = (r, m', s') \<Longrightarrow> m' = m"
proof (induction ids arbitrary: acc s)
  case Nil
  then show ?case by simp
next
  case (Cons i ids)
  then show ?case
    by (auto simp: Let_def split: option.splits sum.splits prod.splits if_splits
             dest!: check_essential_frameD)
qed

lemma FSEOF_FS_run_frameD: "FSEOF_FS_run ls self fl fh chk n m s = (r, m', s') \<Longrightarrow> m' = m"
  unfolding FSEOF_FS_run_def
  by (auto split: prod.splits sum.splits dest!: average_fluxes_frameD classify_frameD)

lemma sweep_frameD: "sweep fa ls self fva np lbs psf m s = (r, m', s') \<Longrightarrow> m' = m"
proof (induction lbs arbitrary: psf s)
  case Nil
  then show ?case by simp
next
  case (Cons lb lbs)
  then show ?case
    by (auto split: sum.splits prod.splits dest!: probe_step_frameD)
qed

lemma find_essentialities_frameD:
  "find_essentialities ls self tts ids ess m s = (r, m', s') \<Longrightarrow> m' = m"
proof (induction ids arbitrary: ess s)
  case Nil
  then show ?case by simp
next
  case (Cons i ids)
  then show ?case
    by (auto split: sum.splits prod.splits if_splits dest!: check_essential_frameD)
qed

lemma finish_run_frameD: "finish_run ls pf self chk lbs psf m s = (r, m', s') \<Longrightarrow> m' = m"
  unfolding finish_run_def
  by (auto split: sum.splits prod.splits if_splits dest!: find_essentialities_frameD)

lemma FVSEOF_run_frameD: "FVSEOF_run fa ls pf self k chk fva np m s = (r, m', s') \<Longrightarrow> m' = m"
  unfolding FVSEOF_run_def Let_def
  by (auto split: sum.splits prod.splits dest!: sweep_frameD finish_run_frameD)

lemma init_frameD:
  "init v ls b t thr m s = (r, m', s') \<Longrightarrow>
     (case r of Inl e \<Rightarrow> m' = m \<or> m' = add_reactions [product_sink_reaction v t] m
      | Inr a \<Rightarrow> m' = add_reactions [product_sink_reaction v t] m)"
  unfolding init_def add_product_sink_reaction_def Let_def
  by (auto split: sum.splits prod.splits if_splits dest!: calc_yield_frameD calc_growth_frameD)

lemma get_by_id_Inr_iff: "(\<exists>r. get_by_id rs i = Inr r) \<longleftrightarrow> i \<in> set (map r_id rs)"
  by (induction rs) auto

lemma get_by_id_append_new:
  "i \<notin> set (map r_id rs) \<Longrightarrow> get_by_id (rs @ rs') i = get_by_id rs' i"
  by (induction rs) auto

lemma add_product_sink_reaction_ok:
  "t \<in> set (metabolites m) \<Longrightarrow>
   add_product_sink_reaction v t m =
     (Inr (t @ sink_suffix v), add_reactions [product_sink_reaction v t] m)"
  by (simp add: add_product_sink_reaction_def)

lemma metabolites_add_reactions [simp]: "metabolites (add_reactions rs m) = metabolites m"
  by (simp add: add_reactions_def)

lemma get_added_sink:
  "t @ sink_suffix v \<notin> set (reaction_ids m) \<Longrightarrow>
   get_by_id (reactions (add_reactions [product_sink_reaction v t] m)) (t @ sink_suffix v)
     = Inr (product_sink_reaction v t)"
  by (simp add: add_reactions_def reaction_ids_def product_sink_reaction_def get_by_id_append_new)

lemma get_both_sinks:
  assumes "t @ sink_suffix FSEOF_FS \<notin> set (reaction_ids m)"
    and "t @ sink_suffix FVSEOF \<notin> set (reaction_ids m)"
  shows "get_by_id (reactions (add_reactions [product_sink_reaction FVSEOF t]
             (add_reactions [product_sink_reaction FSEOF_FS t] m))) (t @ sink_suffix FSEOF_FS)
           = Inr (product_sink_reaction FSEOF_FS t)"
    and "get_by_id (reactions (add_reactions [product_sink_reaction FVSEOF t]
             (add_reactions [product_sink_reaction FSEOF_FS t] m))) (t @ sink_suffix FVSEOF)
           = Inr (product_sink_reaction FVSEOF t)"
  using assms
  by (simp_all add: add_reactions_def reaction_ids_def product_sink_reaction_def
        get_by_id_append_new)

lemma init_bad_biomass:
  "b \<notin> set (reaction_ids m) \<Longrightarrow>
   init v ls b t thr m s = (Inl (AssertionError ''Biomass reaction not in model.''), m, s)"
  by (simp add: init_def)

lemma init_bad_target:
  "b \<in> set (reaction_ids m) \<Longrightarrow> t \<notin> set (metabolites m) \<Longrightarrow>
   init v ls b t thr m s = (Inl (AssertionError ''Target metabolite not in model.''), m, s)"
  by (simp add: init_def)

lemma calc_yield_errors:
  "calc_product_maximal_theoretical_yield ls i m s = (Inl e, m', s') \<Longrightarrow> \<exists>x. e = SolverError x"
  by (auto simp: calc_product_maximal_theoretical_yield_def with_model_def Let_def
           split: prod.splits sum.splits)

lemma calc_growth_errors:
  "calc_maximal_biomass_growth ls i m s = (Inl e, m', s') \<Longrightarrow> \<exists>x. e = SolverError x"
  by (auto simp: calc_maximal_biomass_growth_def with_model_def Let_def
           split: prod.splits sum.splits)

lemma init_good:
  "b \<in> set (reaction_ids m) \<Longrightarrow> t \<in> set (metabolites m) \<Longrightarrow>
   (\<exists>a. fst (init v ls b t thr m s) = Inr a) \<or> (\<exists>x. fst (init v ls b t thr m s) = Inl (SolverError x))"
  by (auto simp: init_def add_product_sink_reaction_ok
           split: prod.splits sum.splits dest: calc_yield_errors calc_growth_errors)

lemma np_div_nonzero: "y \<noteq> 0 \<Longrightarrow> np_less (np_div x y) t \<longleftrightarrow> x / y < t"
  by (simp add: np_div_def)

lemma set_lower_bound_ok:
  assumes "get_by_id (reactions m) i = Inr r" and "v \<le> upper_bound r"
  shows "set_lower_bound i v m =
     Inr ((record_undo (ResetLowerBound i (lower_bound r)) m)
            \<lparr>reactions := update_by_id (\<lambda>r. r\<lparr>lower_bound := v\<rparr>) i (reactions m)\<rparr>)"
  using assms by (simp add: set_lower_bound_def)

lemma set_lower_bound_raises:
  assumes "get_by_id (reactions m) i = Inr r" and "upper_bound r < v"
  shows "set_lower_bound i v m = Inl ValueError"
  using assms by (simp add: set_lower_bound_def)

lemma knockout_steps:
  assumes "get_by_id (reactions m) rid = Inr r" and "0 \<le> upper_bound r"
  shows "\<exists>m2. set_lower_bound rid 0 (set_objective (biomass_reaction_id self) (enter_context m)) = Inr m2
           \<and> set_upper_bound rid 0 m2 = Inr (knockout_model self rid m)"
    and "objective (knockout_model self rid m) = biomass_reaction_id self"
    and "get_by_id (reactions (knockout_model self rid m)) rid
           = Inr (r\<lparr>lower_bound := 0, upper_bound := 0\<rparr>)"
  using assms
  by (simp_all add: knockout_model_def set_upper_bound_def set_lower_bound_def record_undo_def
        set_objective_def enter_context_def get_by_id_update Let_def)

lemma check_essential_value:
  assumes "get_by_id (reactions m) rid = Inr r" and "0 \<le> upper_bound r"
  shows "fst (check_essential_reaction ls self rid m s) =
     Inr (case fst (ls s (knockout_model self rid m)) of
            Inl e \<Rightarrow> True
          | Inr sol \<Rightarrow> np_less (np_div (sol (biomass_reaction_id self)) (maximal_biomass_growth self))
                        (check_essential_reaction_threshold self))"
proof -
  from knockout_steps(1) [OF assms, of self] obtain m2 where
    "set_lower_bound rid 0 (set_objective (biomass_reaction_id self) (enter_context m)) = Inr m2"
    and "set_upper_bound rid 0 m2 = Inr (knockout_model self rid m)"
    by blast
  moreover have "get_by_id (reactions (set_objective (biomass_reaction_id self) (enter_context m))) rid = Inr r"
    using assms(1) by (simp add: set_objective_def record_undo_def enter_context_def)
  ultimately show ?thesis
    by (simp add: check_essential_reaction_def with_model_def Let_def
          split: prod.splits sum.splits)
qed

lemma check_essential_raises:
  assumes "get_by_id (reactions m) rid = Inr r" and "upper_bound r < 0"
  shows "check_essential_reaction ls self rid m s = (Inl ValueError, m, s)"
proof -
  let ?m1 = "set_objective (biomass_reaction_id self) (enter_context m)"
  have g: "get_by_id (reactions ?m1) rid = Inr r"
    using assms(1) by (simp add: set_objective_def record_undo_def enter_context_def)
  then have "set_lower_bound rid 0 ?m1 = Inl ValueError"
    using assms(2) by (rule set_lower_bound_raises)
  moreover note g
  moreover have "exit_context ?m1 = m"
    by (simp add: set_objective_def record_undo_def enter_context_def exit_context_def)
  ultimately show ?thesis
    by (simp add: check_essential_reaction_def with_model_def Let_def)
qed

lemma init_threshold:
  "init v ls b t thr m s = (Inr a, m', s') \<Longrightarrow> check_essential_reaction_threshold a = thr"
  by (auto simp: init_def split: if_splits prod.splits sum.splits)

section \<open>Lemmas: ranking and the two classifications\<close>

lemma set_insort_desc: "set (insort_desc f x xs) = insert x (set xs)"
  by (induction xs) auto

lemma set_sort_desc: "set (sort_desc f xs) = set xs"
  unfolding sort_desc_def by (induction xs) (auto simp: set_insort_desc)

lemma descending_insort:
  "sorted_wrt (\<lambda>a b. f b \<le> f a) xs \<Longrightarrow> sorted_wrt (\<lambda>a b. f b \<le> f a) (insort_desc f x xs)"
proof (induction xs)
  case Nil
  then show ?case by simp
next
  case (Cons y ys)
  show ?case
  proof (cases "f y \<le> f x")
    case True
    with Cons.prems show ?thesis by (auto intro: order_trans)
  next
    case False
    then have "f x \<le> f y" by simp
    with False Cons show ?thesis by (auto simp: set_insort_desc)
  qed
qed

lemma descending_sort_desc: "sorted_wrt (\<lambda>a b. f b \<le> f a) (sort_desc f xs)"
  unfolding sort_desc_def by (induction xs) (auto intro: descending_insort)

lemma classify_defined:
  "classify_reactions ls self chk lo hi ids acc m s = (Inr rows, m', s') \<Longrightarrow>
   \<forall>i\<in>set ids. \<exists>a b. lo i = Some a \<and> hi i = Some b"
proof (induction ids arbitrary: acc m s)
  case Nil
  then show ?case by simp
next
  case (Cons i ids)
  then show ?case
    by (auto simp: Let_def split: option.splits sum.splits prod.splits if_splits)
qed

lemma classify_ids:
  "classify_reactions ls self chk lo hi ids acc m s = (Inr rows, m', s') \<Longrightarrow>
   reaction_id ` set rows =
     reaction_id ` set acc \<union> {i \<in> set ids. \<exists>a b. lo i = Some a \<and> hi i = Some b \<and> 0 < a * b}"
proof (induction ids arbitrary: acc m s)
  case Nil
  then show ?case by auto
next
  case (Cons i ids)
  show ?case
  proof (cases "\<exists>a b. lo i = Some a \<and> hi i = Some b \<and> 0 < a * b")
    case True
    then obtain a b where ab: "lo i = Some a" "hi i = Some b" "0 < a * b" by blast
    from Cons.prems ab obtain row m1 s1 where
      rec: "classify_reactions ls self chk lo hi ids (acc @ [row]) m1 s1 = (Inr rows, m', s')"
      and rid: "reaction_id row = i"
      by (auto simp: Let_def split: sum.splits prod.splits if_splits)
    from Cons.IH [OF rec] rid ab show ?thesis by auto
  next
    case False
    with Cons.prems have
      rec: "classify_reactions ls self chk lo hi ids acc m s = (Inr rows, m', s')"
      by (auto simp: Let_def split: option.splits sum.splits prod.splits if_splits)
    from Cons.IH [OF rec] False show ?thesis by auto
  qed
qed

lemma classify_rows:
  "classify_reactions ls self chk lo hi ids acc m s = (Inr rows, m', s') \<Longrightarrow>
   \<forall>x\<in>set acc. classified lo hi x \<Longrightarrow> \<forall>x\<in>set rows. classified lo hi x"
proof (induction ids arbitrary: acc m s)
  case Nil
  then show ?case by auto
next
  case (Cons i ids)
  show ?case
  proof (cases "\<exists>a b. lo i = Some a \<and> hi i = Some b \<and> 0 < a * b")
    case True
    then obtain a b where ab: "lo i = Some a" "hi i = Some b" "0 < a * b" by blast
    from Cons.prems(1) ab obtain row m1 s1 where
      rec: "classify_reactions ls self chk lo hi ids (acc @ [row]) m1 s1 = (Inr rows, m', s')"
      and row: "classified lo hi row"
      by (auto simp: Let_def classified_def split: sum.splits prod.splits if_splits)
    from Cons.IH [OF rec] row Cons.prems(2) show ?thesis by auto
  next
    case False
    with Cons.prems have
      rec: "classify_reactions ls self chk lo hi ids acc m s = (Inr rows, m', s')"
      by (auto simp: Let_def split: option.splits sum.splits prod.splits if_splits)
    from Cons.IH [OF rec] Cons.prems(2) show ?thesis by auto
  qed
qed

lemma rank_targets_rows:
  assumes "rank_targets chk df_data = Inr df"
  shows "df_data \<noteq> []" and "set df = add_abs_diff ` set df_data"
    and "sorted_wrt (\<lambda>a b. (target_type b, abs_diff_mean_fluxes b)
                           \<le> (target_type a, abs_diff_mean_fluxes a)) df"
proof -
  from assms show ne: "df_data \<noteq> []"
    by (auto simp: rank_targets_def frame_columns_def Let_def split: if_splits)
  from assms ne have df: "df = sort_desc (\<lambda>x. (target_type x, abs_diff_mean_fluxes x))
                                (map add_abs_diff df_data)"
    by (auto simp: rank_targets_def frame_columns_def Let_def split: if_splits)
  show "set df = add_abs_diff ` set df_data"
    unfolding df by (simp add: set_sort_desc)
  show "sorted_wrt (\<lambda>a b. (target_type b, abs_diff_mean_fluxes b)
                           \<le> (target_type a, abs_diff_mean_fluxes a)) df"
    unfolding df by (rule descending_sort_desc)
qed

lemma rank_targets_empty: "rank_targets chk [] = Inl ValueError"
  by (simp add: rank_targets_def)

lemma add_abs_diff_fields:
  "reaction_id (add_abs_diff x) = reaction_id x"
  "target_type (add_abs_diff x) = target_type x"
  "mean_flux_low (add_abs_diff x) = mean_flux_low x"
  "mean_flux_high (add_abs_diff x) = mean_flux_high x"
  "essential (add_abs_diff x) = essential x"
  "abs_diff_mean_fluxes (add_abs_diff x) = \<bar>mean_flux_low x - mean_flux_high x\<bar>"
  by (simp_all add: add_abs_diff_def)

lemma FSEOF_FS_run_stages:
  assumes "FSEOF_FS_run ls self fl fh chk n m s = (Inr df, m', s')"
  shows "\<exists>lo hi s1 s2 df_data.
           average_fluxes_at ls self fl n m s = (Inr lo, m, s1)
           \<and> average_fluxes_at ls self fh n m s1 = (Inr hi, m, s2)
           \<and> classify_reactions ls self chk lo hi (reaction_ids m) [] m s2 = (Inr df_data, m, s')
           \<and> rank_targets chk df_data = Inr df"
proof -
  obtain r1 m1 s1 where a1: "average_fluxes_at ls self fl n m s = (r1, m1, s1)"
    by (cases "average_fluxes_at ls self fl n m s") auto
  have m1: "m1 = m" by (rule average_fluxes_frameD [OF a1])
  from assms a1 obtain lo where r1: "r1 = Inr lo"
    by (cases r1) (auto simp: FSEOF_FS_run_def)
  obtain r2 m2 s2 where a2: "average_fluxes_at ls self fh n m s1 = (r2, m2, s2)"
    by (cases "average_fluxes_at ls self fh n m s1") auto
  have m2: "m2 = m" by (rule average_fluxes_frameD [OF a2])
  from assms a1 a2 r1 m1 obtain hi where r2: "r2 = Inr hi"
    by (cases r2) (auto simp: FSEOF_FS_run_def)
  obtain r3 m3 s3 where
    a3: "classify_reactions ls self chk lo hi (reaction_ids m) [] m s2 = (r3, m3, s3)"
    by (cases "classify_reactions ls self chk lo hi (reaction_ids m) [] m s2") auto
  have m3: "m3 = m" by (rule classify_frameD [OF a3])
  from assms a1 a2 a3 r1 r2 m1 m2 obtain df_data where r3: "r3 = Inr df_data"
    by (cases r3) (auto simp: FSEOF_FS_run_def)
  from assms a1 a2 a3 r1 r2 r3 m1 m2 m3
  have "rank_targets chk df_data = Inr df" and "s3 = s'"
    by (auto simp: FSEOF_FS_run_def)
  with a1 a2 a3 r1 r2 r3 m1 m2 m3 show ?thesis by auto
qed

lemma toy_FSEOF_FS_run:
  "FSEOF_FS_run (toy_solver ''P_sink'') (toy_analyzer FSEOF_FS) (1 / 5) (3 / 10) True 2
     (toy_model_with_sink FSEOF_FS) 0
   = (Inr toy_targets, toy_model_with_sink FSEOF_FS, 9)"
  by code_simp

lemma classify_none:
  "\<forall>i\<in>set ids. \<exists>a b. lo i = Some a \<and> hi i = Some b \<and> \<not> 0 < a * b \<Longrightarrow>
   classify_reactions ls self chk lo hi ids acc m s = (Inr acc, m, s)"
  by (induction ids) auto

lemma FSEOF_FS_run_nonempty:
  "fst (FSEOF_FS_run ls self fl fh chk n m s) \<noteq> Inr []"
proof
  assume e: "fst (FSEOF_FS_run ls self fl fh chk n m s) = Inr []"
  then obtain m' s' where "FSEOF_FS_run ls self fl fh chk n m s = (Inr [], m', s')"
    by (cases "FSEOF_FS_run ls self fl fh chk n m s") auto
  from FSEOF_FS_run_stages [OF this] obtain df_data where
    r: "rank_targets chk df_data = Inr []" by blast
  from rank_targets_rows(1,2) [OF r] show False by auto
qed

lemma idle_average:
  "\<exists>lo. average_fluxes_at idle_solver idle_fs_analyzer fr 2 (toy_model_with_sink FSEOF_FS) k
           = (Inr lo, toy_model_with_sink FSEOF_FS, Suc (Suc k))
         \<and> (\<forall>i\<in>set (reaction_ids (toy_model_with_sink FSEOF_FS)). lo i = Some 0)"
  by (simp add: average_fluxes_at_def with_model_def get_average_fluxes_from_n_solutions_def
        idle_solver_def idle_fs_analyzer_def toy_model_with_sink_def toy_model_def add_reactions_def
        product_sink_reaction_def reaction_ids_def set_objective_def set_lower_bound_def
        record_undo_def enter_context_def exit_context_def eval_nat_numeral Let_def)

lemma reaction_ids_set_objective [simp]: "reaction_ids (set_objective i m) = reaction_ids m"
  by (simp add: reaction_ids_def set_objective_def record_undo_def split: list.splits)

lemma reaction_ids_set_lower_bound:
  "set_lower_bound i v m = Inr m' \<Longrightarrow> reaction_ids m' = reaction_ids m"
  by (auto simp: reaction_ids_def set_lower_bound_def record_undo_def map_r_id_update
        split: list.splits sum.splits if_splits)

lemma reaction_ids_enter_context [simp]: "reaction_ids (enter_context m) = reaction_ids m"
  by (simp add: reaction_ids_def enter_context_def)

lemma append_step_result:
  "append_step ids f d = Inr d' \<Longrightarrow> distinct ids \<Longrightarrow>
   d' i = (if i \<in> set ids then map_option (\<lambda>fs. fs @ [f i]) (d i) else d i)"
proof (induction ids arbitrary: d)
  case Nil
  then show ?case by simp
next
  case (Cons j ids)
  from Cons.prems(1) obtain fs where fs: "d j = Some fs"
    and rec: "append_step ids f (d(j \<mapsto> fs @ [f j])) = Inr d'"
    by (auto split: option.splits)
  from Cons.IH [OF rec] Cons.prems(2) fs show ?case by auto
qed

lemma probe_step_result:
  assumes "probe_step fa ls self fva np lb d m s = (Inr d', m', s')" and "distinct (reaction_ids m)"
  shows "\<exists>flux. \<forall>i. d' i = (if i \<in> set (reaction_ids m)
                              then map_option (\<lambda>fs. fs @ [flux i]) (d i) else d i)"
proof -
  from assms(1) obtain flux m2 where a: "append_step (reaction_ids m2) flux d = Inr d'"
    and m2: "reaction_ids m2 = reaction_ids m"
    unfolding probe_step_def with_model_def
    by (auto simp: Let_def dest: reaction_ids_set_lower_bound split: prod.splits sum.splits if_splits)
  from append_step_result [OF a] assms(2) m2 show ?thesis by auto
qed

lemma sweep_result:
  "sweep fa ls self fva np lbs d m s = (Inr psf, m', s') \<Longrightarrow> distinct (reaction_ids m) \<Longrightarrow>
   i \<in> set (reaction_ids m) \<Longrightarrow> d i = Some fs0 \<Longrightarrow>
   \<exists>fs1. psf i = Some (fs0 @ fs1) \<and> length fs1 = length lbs"
proof (induction lbs arbitrary: d s fs0)
  case Nil
  then show ?case by simp
next
  case (Cons lb lbs)
  from Cons.prems(1) obtain d1 m1 s1 where
    p: "probe_step fa ls self fva np lb d m s = (Inr d1, m1, s1)"
    and rec: "sweep fa ls self fva np lbs d1 m1 s1 = (Inr psf, m', s')"
    by (auto split: prod.splits sum.splits)
  have m1: "m1 = m" by (rule probe_step_frameD [OF p])
  from probe_step_result [OF p Cons.prems(2)] obtain flux where
    "\<forall>i. d1 i = (if i \<in> set (reaction_ids m)
                              then map_option (\<lambda>fs. fs @ [flux i]) (d i) else d i)"
    by blast
  with Cons.prems(3,4) have d1: "d1 i = Some (fs0 @ [flux i])" by simp
  from Cons.IH [OF rec [unfolded m1] Cons.prems(2,3) d1]
  obtain fs1 where "psf i = Some ((fs0 @ [flux i]) @ fs1)" "length fs1 = length lbs" by blast
  then have "psf i = Some (fs0 @ (flux i # fs1)) \<and> length (flux i # fs1) = length (lb # lbs)"
    by simp
  then show ?case by blast
qed

lemma map_of_initial: "i \<in> set ids \<Longrightarrow> map_of (map (\<lambda>i. (i, [])) ids) i = Some []"
  by (induction ids) auto

lemma assign_target_types_result:
  "assign_target_types psf ids acc = Inr tts \<Longrightarrow>
   (\<forall>i\<in>set ids. \<exists>fs. psf i = Some fs \<and> fs \<noteq> [])
   \<and> (\<forall>i. tts i = (if i \<in> set ids \<and> hd (the (psf i)) \<noteq> 0 \<and> last (the (psf i)) \<noteq> 0
                    then Some (trend (the (psf i))) else acc i))"
proof (induction ids arbitrary: acc)
  case Nil
  then show ?case by simp
next
  case (Cons j ids)
  from Cons.prems obtain fs where fs: "psf j = Some fs" "fs \<noteq> []"
    by (auto split: option.splits if_splits)
  let ?acc' = "if hd fs \<noteq> 0 \<and> last fs \<noteq> 0 then acc(j \<mapsto> trend fs) else acc"
  from Cons.prems fs have rec: "assign_target_types psf ids ?acc' = Inr tts"
    by (auto simp: trend_def split: if_splits)
  from Cons.IH [OF rec] fs show ?case by auto
qed

lemma find_slopes_result:
  "find_slopes pf lbs psf ids acc = Inr sl \<Longrightarrow>
   \<forall>i\<in>set ids. \<exists>fs c. psf i = Some fs \<and> pf lbs fs = Inr c \<and> sl i = Some c"
proof (induction ids arbitrary: acc)
  case Nil
  then show ?case by simp
next
  case (Cons j ids)
  from Cons.prems obtain fs c where fs: "psf j = Some fs" "pf lbs fs = Inr c"
    and rec: "find_slopes pf lbs psf ids (acc(j \<mapsto> c)) = Inr sl"
    by (auto split: option.splits sum.splits)
  have keep: "\<And>acc. find_slopes pf lbs psf ids acc = Inr sl \<Longrightarrow> j \<notin> set ids \<Longrightarrow> sl j = acc j"
  proof (induction ids)
    case Nil
    then show ?case by simp
  next
    case (Cons a ids)
    then show ?case by (auto split: option.splits sum.splits)
  qed
  show ?case
  proof (cases "j \<in> set ids")
    case True
    with Cons.IH [OF rec] show ?thesis by auto
  next
    case False
    from keep [OF rec False] fs Cons.IH [OF rec] show ?thesis by auto
  qed
qed

lemma dict_set_ids: "fv_reaction_id ` set (dict_set x ys) = insert (fv_reaction_id x) (fv_reaction_id ` set ys)"
  by (induction ys) auto

lemma dict_set_subset: "set (dict_set x ys) \<subseteq> insert x (set ys)"
  by (induction ys) auto

lemma combine_ids:
  "combine chk k psf tts sl ess rs ids acc = Inr df_data \<Longrightarrow>
   fv_reaction_id ` set df_data = fv_reaction_id ` set acc \<union> {i \<in> set ids. tts i \<noteq> None}"
proof (induction ids arbitrary: acc)
  case Nil
  then show ?case by simp
next
  case (Cons j ids)
  show ?case
  proof (cases "tts j")
    case None
    with Cons.prems have "combine chk k psf tts sl ess rs ids acc = Inr df_data" by simp
    from Cons.IH [OF this] None show ?thesis by auto
  next
    case (Some t)
    with Cons.prems obtain c r fs where f: "sl j = Some c" "get_by_id rs j = Inr r"
        "psf j = Some fs" "k \<le> length fs"
      by (auto split: option.splits sum.splits if_splits)
    let ?x = "\<lparr>fv_reaction_id = j, fv_target_type = t, slope = c,
               fv_gene_reaction_rule = gene_reaction_rule r,
               essentiality = (if chk then ess j else None), step_columns = take k fs\<rparr>"
    from Cons.prems Some f
    have rec: "combine chk k psf tts sl ess rs ids (dict_set ?x acc) = Inr df_data"
      by (auto split: if_splits)
    from Cons.IH [OF rec] Some show ?thesis by (auto simp: dict_set_ids)
  qed
qed

lemma combine_rows:
  "combine chk k psf tts sl ess rs ids acc = Inr df_data \<Longrightarrow>
   \<forall>x\<in>set acc. P x \<Longrightarrow>
   (\<And>i t c fs (x :: fvseof_row). tts i = Some t \<Longrightarrow> sl i = Some c \<Longrightarrow> psf i = Some fs \<Longrightarrow> k \<le> length fs \<Longrightarrow>
      fv_reaction_id x = i \<Longrightarrow> fv_target_type x = t \<Longrightarrow> slope x = c \<Longrightarrow>
      step_columns x = take k fs \<Longrightarrow> P x) \<Longrightarrow>
   \<forall>x\<in>set df_data. P x"
proof (induction ids arbitrary: acc)
  case Nil
  then show ?case by simp
next
  case (Cons j ids)
  show ?case
  proof (cases "tts j")
    case None
    with Cons.prems(1) have "combine chk k psf tts sl ess rs ids acc = Inr df_data" by simp
    from Cons.IH [OF this Cons.prems(2)] Cons.prems(3) show ?thesis by blast
  next
    case (Some t)
    with Cons.prems(1) obtain c r fs where f: "sl j = Some c" "get_by_id rs j = Inr r"
        "psf j = Some fs" "k \<le> length fs"
      by (auto split: option.splits sum.splits if_splits)
    let ?x = "\<lparr>fv_reaction_id = j, fv_target_type = t, slope = c,
               fv_gene_reaction_rule = gene_reaction_rule r,
               essentiality = (if chk then ess j else None), step_columns = take k fs\<rparr>"
    from Cons.prems(1) Some f
    have rec: "combine chk k psf tts sl ess rs ids (dict_set ?x acc) = Inr df_data"
      by (auto split: if_splits)
    have "P ?x" by (rule Cons.prems(3) [OF Some f(1,3,4)]) simp_all
    with Cons.prems(2) dict_set_subset [of ?x acc] have "\<forall>y\<in>set (dict_set ?x acc). P y" by auto
    from Cons.IH [OF rec this] Cons.prems(3) show ?thesis by blast
  qed
qed

lemma rank_fvseof_rows:
  assumes "rank_fvseof df_data = Inr df"
  shows "df_data \<noteq> []" and "set df = set df_data"
    and "sorted_wrt (\<lambda>a b. (fv_target_type b, \<bar>slope b\<bar>) \<le> (fv_target_type a, \<bar>slope a\<bar>)) df"
proof -
  from assms show ne: "df_data \<noteq> []"
    by (auto simp: rank_fvseof_def Let_def split: if_splits)
  from assms ne have df: "df = sort_desc (\<lambda>x. (fv_target_type x, \<bar>slope x\<bar>)) df_data"
    by (auto simp: rank_fvseof_def Let_def split: if_splits)
  show "set df = set df_data"
    unfolding df by (simp add: set_sort_desc)
  show "sorted_wrt (\<lambda>a b. (fv_target_type b, \<bar>slope b\<bar>) \<le> (fv_target_type a, \<bar>slope a\<bar>)) df"
    unfolding df by (rule descending_sort_desc)
qed

lemma finish_run_stages:
  assumes "finish_run ls pf self chk lbs psf m s = (Inr df, m', s')"
  shows "\<exists>tts sl ess df_data.
           assign_target_types psf (reaction_ids m) Map.empty = Inr tts
           \<and> find_slopes pf lbs psf (reaction_ids m) Map.empty = Inr sl
           \<and> combine chk (length lbs) psf tts sl ess (reactions m) (reaction_ids m) [] = Inr df_data
           \<and> rank_fvseof df_data = Inr df"
proof -
  from assms obtain tts where t: "assign_target_types psf (reaction_ids m) Map.empty = Inr tts"
    by (cases "assign_target_types psf (reaction_ids m) Map.empty") (auto simp: finish_run_def)
  from assms t obtain sl where sl: "find_slopes pf lbs psf (reaction_ids m) Map.empty = Inr sl"
    by (cases "find_slopes pf lbs psf (reaction_ids m) Map.empty") (auto simp: finish_run_def)
  let ?e = "if chk then find_essentialities ls self tts (reaction_ids m) Map.empty m s
            else (Inr Map.empty, m, s)"
  obtain r m1 s1 where e: "?e = (r, m1, s1)" by (cases ?e) auto
  have m1: "m1 = m"
    using e find_essentialities_frameD [of ls self tts "reaction_ids m" Map.empty m s r m1 s1]
    by (auto split: if_splits)
  from assms t sl e obtain ess where r: "r = Inr ess"
    by (cases r) (auto simp: finish_run_def)
  from assms t sl e r m1 obtain df_data where
    c: "combine chk (length lbs) psf tts sl ess (reactions m) (reaction_ids m) [] = Inr df_data"
    by (cases "combine chk (length lbs) psf tts sl ess (reactions m) (reaction_ids m) []")
       (auto simp: finish_run_def)
  from assms t sl e r m1 c have "rank_fvseof df_data = Inr df"
    by (auto simp: finish_run_def)
  with t sl c show ?thesis by blast
qed

lemma FVSEOF_run_stages:
  assumes "FVSEOF_run fa ls pf self k chk fva np m s = (Inr df, m', s')"
  shows "\<exists>psf s1.
           sweep fa ls self fva np (steps_lower_bounds k (product_max_theoretical_yield self))
             (map_of (map (\<lambda>i. (i, [])) (reaction_ids m))) m s = (Inr psf, m, s1)
           \<and> finish_run ls pf self chk (steps_lower_bounds k (product_max_theoretical_yield self))
               psf m s1 = (Inr df, m', s')"
proof -
  let ?lbs = "steps_lower_bounds k (product_max_theoretical_yield self)"
  let ?d = "map_of (map (\<lambda>i. (i, [])) (reaction_ids m))"
  obtain r m1 s1 where sw: "sweep fa ls self fva np ?lbs ?d m s = (r, m1, s1)"
    by (cases "sweep fa ls self fva np ?lbs ?d m s") auto
  have m1: "m1 = m" by (rule sweep_frameD [OF sw])
  from assms sw obtain psf where r: "r = Inr psf"
    by (cases r) (auto simp: FVSEOF_run_def Let_def)
  from assms sw r m1 have "finish_run ls pf self chk ?lbs psf m s1 = (Inr df, m', s')"
    by (auto simp: FVSEOF_run_def Let_def)
  with sw r m1 show ?thesis by blast
qed

lemma FVSEOF_rows:
  assumes "finish_run ls pf self chk lbs psf m s = (Inr df, m', s')"
  shows "fv_reaction_id ` set df =
           {i \<in> set (reaction_ids m). hd (the (psf i)) \<noteq> 0 \<and> last (the (psf i)) \<noteq> 0}"
    and "\<forall>i\<in>set (reaction_ids m). \<exists>fs. psf i = Some fs \<and> fs \<noteq> []"
    and "\<forall>x\<in>set df. fv_classified pf lbs psf x"
proof -
  from finish_run_stages [OF assms] obtain tts sl ess df_data where
    t: "assign_target_types psf (reaction_ids m) Map.empty = Inr tts"
    and sl: "find_slopes pf lbs psf (reaction_ids m) Map.empty = Inr sl"
    and c: "combine chk (length lbs) psf tts sl ess (reactions m) (reaction_ids m) [] = Inr df_data"
    and r: "rank_fvseof df_data = Inr df"
    by blast
  note tt = assign_target_types_result [OF t]
  from tt show "\<forall>i\<in>set (reaction_ids m). \<exists>fs. psf i = Some fs \<and> fs \<noteq> []" by blast
  have df: "set df = set df_data" by (rule rank_fvseof_rows(2) [OF r])
  have tts: "tts i = (if i \<in> set (reaction_ids m) \<and> hd (the (psf i)) \<noteq> 0 \<and> last (the (psf i)) \<noteq> 0
                    then Some (trend (the (psf i))) else None)" for i
    using tt by simp
  show "fv_reaction_id ` set df =
           {i \<in> set (reaction_ids m). hd (the (psf i)) \<noteq> 0 \<and> last (the (psf i)) \<noteq> 0}"
    unfolding df using combine_ids [OF c] by (auto simp: tts)
  have "\<forall>x\<in>set df_data. fv_classified pf lbs psf x"
  proof (rule combine_rows [OF c])
    show "\<forall>x\<in>set []. fv_classified pf lbs psf x" by simp
  next
    fix i t c fs and x :: fvseof_row
    assume a: "tts i = Some t" "sl i = Some c" "psf i = Some fs" "length lbs \<le> length fs"
      "fv_reaction_id x = i" "fv_target_type x = t" "slope x = c"
      "step_columns x = take (length lbs) fs"
    from a(1) have i: "i \<in> set (reaction_ids m)" "hd (the (psf i)) \<noteq> 0" "last (the (psf i)) \<noteq> 0"
      "t = trend (the (psf i))"
      by (auto simp: tts split: if_splits)
    from tt i(1) a(3) have ne: "fs \<noteq> []" by auto
    from find_slopes_result [OF sl] i(1) a(2,3) have "pf lbs fs = Inr c" by auto
    with a i ne show "fv_classified pf lbs psf x"
      by (simp add: fv_classified_def)
  qed
  then show "\<forall>x\<in>set df. fv_classified pf lbs psf x" unfolding df .
qed

lemma toy_FVSEOF_run:
  "FVSEOF_run (toy_fva ''P_fvseof_sink'') (toy_solver ''P_fvseof_sink'') line_fit
     (toy_analyzer FVSEOF) 2 True True 1 (toy_model_with_sink FVSEOF) 0
   = (Inr toy_fv_targets, toy_model_with_sink FVSEOF, 7)"
  by code_simp

lemma toy_distinct: "distinct (reaction_ids (toy_model_with_sink v))"
  by (cases v) (simp_all add: toy_model_with_sink_def add_reactions_def toy_model_def
        reaction_ids_def product_sink_reaction_def)

lemma trend_cases: "trend fs = ''Up'' \<or> trend fs = ''Down'' \<or> trend fs = ''Reverse''"
  by (simp add: trend_def)

lemma FSEOF_FS_run_order:
  assumes "FSEOF_FS_run ls self fl fh chk n m s = (Inr df, m', s')"
  shows "\<forall>row\<in>set df. target_type row = ''Up'' \<or> target_type row = ''Down''"
    and "\<forall>i j. i < j \<and> j < length df \<longrightarrow>
           (target_type (df ! i) = ''Down'' \<longrightarrow> target_type (df ! j) = ''Down'')
           \<and> (target_type (df ! i) = target_type (df ! j) \<longrightarrow>
                abs_diff_mean_fluxes (df ! j) \<le> abs_diff_mean_fluxes (df ! i))"
proof -
  from FSEOF_FS_run_stages [OF assms] obtain lo hi s2 df_data where
    c: "classify_reactions ls self chk lo hi (reaction_ids m) [] m s2 = (Inr df_data, m, s')"
    and r: "rank_targets chk df_data = Inr df"
    by blast
  have "\<forall>x\<in>set df_data. classified lo hi x" using classify_rows [OF c] by simp
  then show types: "\<forall>row\<in>set df. target_type row = ''Up'' \<or> target_type row = ''Down''"
    unfolding rank_targets_rows(2) [OF r] by (auto simp: classified_def add_abs_diff_fields)
  show "\<forall>i j. i < j \<and> j < length df \<longrightarrow>
           (target_type (df ! i) = ''Down'' \<longrightarrow> target_type (df ! j) = ''Down'')
           \<and> (target_type (df ! i) = target_type (df ! j) \<longrightarrow>
                abs_diff_mean_fluxes (df ! j) \<le> abs_diff_mean_fluxes (df ! i))"
  proof (intro allI impI)
    fix i j assume ij: "i < j \<and> j < length df"
    then have le: "(target_type (df ! j), abs_diff_mean_fluxes (df ! j))
                 \<le> (target_type (df ! i), abs_diff_mean_fluxes (df ! i))"
      using rank_targets_rows(3) [OF r] by (simp add: sorted_wrt_iff_nth_less)
    from ij types have tj: "target_type (df ! j) = ''Up'' \<or> target_type (df ! j) = ''Down''"
      by simp
    from le tj show "(target_type (df ! i) = ''Down'' \<longrightarrow> target_type (df ! j) = ''Down'')
           \<and> (target_type (df ! i) = target_type (df ! j) \<longrightarrow>
                abs_diff_mean_fluxes (df ! j) \<le> abs_diff_mean_fluxes (df ! i))"
      by (auto simp: less_eq_prod_def)
  qed
qed

lemma FVSEOF_run_order:
  assumes "FVSEOF_run fa ls pf self k chk fva np m s = (Inr df, m', s')"
  shows "\<forall>row\<in>set df. fv_target_type row = ''Up'' \<or> fv_target_type row = ''Reverse''
            \<or> fv_target_type row = ''Down''"
    and "\<forall>i j. i < j \<and> j < length df \<longrightarrow>
           (fv_target_type (df ! i) = ''Reverse'' \<longrightarrow> fv_target_type (df ! j) \<noteq> ''Up'')
           \<and> (fv_target_type (df ! i) = ''Down'' \<longrightarrow> fv_target_type (df ! j) = ''Down'')
           \<and> (fv_target_type (df ! i) = fv_target_type (df ! j) \<longrightarrow>
                \<bar>slope (df ! j)\<bar> \<le> \<bar>slope (df ! i)\<bar>)"
proof -
  let ?lbs = "steps_lower_bounds k (product_max_theoretical_yield self)"
  from FVSEOF_run_stages [OF assms] obtain psf s1 where
    fin: "finish_run ls pf self chk ?lbs psf m s1 = (Inr df, m', s')"
    by blast
  from finish_run_stages [OF fin] obtain df_data where r: "rank_fvseof df_data = Inr df"
    by blast
  from FVSEOF_rows(3) [OF fin]
  show types: "\<forall>row\<in>set df. fv_target_type row = ''Up'' \<or> fv_target_type row = ''Reverse''
            \<or> fv_target_type row = ''Down''"
    unfolding fv_classified_def by (metis trend_cases)
  show "\<forall>i j. i < j \<and> j < length df \<longrightarrow>
           (fv_target_type (df ! i) = ''Reverse'' \<longrightarrow> fv_target_type (df ! j) \<noteq> ''Up'')
           \<and> (fv_target_type (df ! i) = ''Down'' \<longrightarrow> fv_target_type (df ! j) = ''Down'')
           \<and> (fv_target_type (df ! i) = fv_target_type (df ! j) \<longrightarrow>
                \<bar>slope (df ! j)\<bar> \<le> \<bar>slope (df ! i)\<bar>)"
  proof (intro allI impI)
    fix i j assume ij: "i < j \<and> j < length df"
    then have le: "(fv_target_type (df ! j), \<bar>slope (df ! j)\<bar>)
                 \<le> (fv_target_type (df ! i), \<bar>slope (df ! i)\<bar>)"
      using rank_fvseof_rows(3) [OF r] by (simp add: sorted_wrt_iff_nth_less)
    from ij types have tj: "fv_target_type (df ! j) = ''Up'' \<or> fv_target_type (df ! j) = ''Reverse''
        \<or> fv_target_type (df ! j) = ''Down''"
      by simp
    from le tj show "(fv_target_type (df ! i) = ''Reverse'' \<longrightarrow> fv_target_type (df ! j) \<noteq> ''Up'')
           \<and> (fv_target_type (df ! i) = ''Down'' \<longrightarrow> fv_target_type (df ! j) = ''Down'')
           \<and> (fv_target_type (df ! i) = fv_target_type (df ! j) \<longrightarrow>
                \<bar>slope (df ! j)\<bar> \<le> \<bar>slope (df ! i)\<bar>)"
      by (auto simp: less_eq_prod_def)
  qed
qed

lemma toy_average:
  "fr \<le> 1000 \<Longrightarrow>
   \<exists>lo. average_fluxes_at (toy_solver ''P_sink'') (toy_analyzer FSEOF_FS) fr 2
            (toy_model_with_sink FSEOF_FS) k
           = (Inr lo, toy_model_with_sink FSEOF_FS, Suc (Suc k))
         \<and> lo ''R2'' = Some (1 - 4 * fr)"
  by (simp add: average_fluxes_at_def with_model_def get_average_fluxes_from_n_solutions_def
        toy_solver_def toy_fluxes_def knocked_out_def level_of_def
        toy_analyzer_def toy_model_with_sink_def toy_model_def add_reactions_def
        product_sink_reaction_def reaction_ids_def set_objective_def set_lower_bound_def
        record_undo_def enter_context_def exit_context_def eval_nat_numeral Let_def)

section \<open>Lemmas: the levels of the sweep\<close>

lemma level_of_set_lower_bound:
  "set_lower_bound i v m = Inr m' \<Longrightarrow> level_of i m' = v"
  by (auto simp: level_of_def set_lower_bound_def record_undo_def get_by_id_update
        split: sum.splits if_splits)

lemma probe_step_log:
  assumes "probe_step (recording_fva sink fa) (recording sink ls) self fva np lb d m (s, tr)
             = (Inr d', m', (s', tr'))"
    and "product_sink_reaction_id self = sink"
  shows "tr' = tr @ [lb]"
  using assms unfolding probe_step_def with_model_def
  by (auto simp: Let_def recording_def recording_fva_def dest: level_of_set_lower_bound
           split: prod.splits sum.splits if_splits)

lemma sweep_log:
  "sweep (recording_fva sink fa) (recording sink ls) self fva np lbs d m (s, tr)
      = (Inr psf, m', (s', tr')) \<Longrightarrow>
   product_sink_reaction_id self = sink \<Longrightarrow> tr' = tr @ lbs"
proof (induction lbs arbitrary: d m s tr)
  case Nil
  then show ?case by simp
next
  case (Cons lb lbs)
  from Cons.prems(1) obtain d1 m1 s1 tr1 where
    p: "probe_step (recording_fva sink fa) (recording sink ls) self fva np lb d m (s, tr)
          = (Inr d1, m1, (s1, tr1))"
    and rec: "sweep (recording_fva sink fa) (recording sink ls) self fva np lbs d1 m1 (s1, tr1)
          = (Inr psf, m', (s', tr'))"
    by (auto split: prod.splits sum.splits)
  from probe_step_log [OF p Cons.prems(2)] Cons.IH [OF rec Cons.prems(2)]
  show ?case by simp
qed

lemma finish_run_quiet:
  "finish_run ls pf self False lbs psf m s = (r, m', s') \<Longrightarrow> s' = s"
  by (auto simp: finish_run_def split: sum.splits)

lemma steps_length: "length (steps_lower_bounds k y) = nat k"
  by (simp add: steps_lower_bounds_def)

lemma steps_nth:
  "i < nat k \<Longrightarrow> steps_lower_bounds k y ! i = real i / real_of_int k * y"
  by (simp add: steps_lower_bounds_def)

lemma steps_hd: "1 \<le> k \<Longrightarrow> hd (steps_lower_bounds k y) = 0"
  using steps_nth [of 0 k y] steps_length [of k y]
  by (cases "steps_lower_bounds k y") auto

lemma steps_below_yield:
  assumes "y \<noteq> 0"
  shows "y \<notin> set (steps_lower_bounds k y)"
proof
  assume "y \<in> set (steps_lower_bounds k y)"
  then obtain i where i: "i < nat k" "steps_lower_bounds k y ! i = y"
    by (auto simp: in_set_conv_nth steps_length)
  then have eq: "real i / real_of_int k * y = 1 * y" by (simp add: steps_nth)
  have one: "real i / real_of_int k = 1"
    using mult_right_cancel [OF assms, of "real i / real_of_int k" 1] eq by blast
  from i(1) have lt: "real i < real_of_int k" by linarith
  then have "0 < real_of_int k" by linarith
  with one have "real i = real_of_int k" by (simp add: field_simps)
  with lt show False by simp
qed

lemma toy_recorded_run:
  "FVSEOF_run (recording_fva ''P_fvseof_sink'' (toy_fva ''P_fvseof_sink''))
     (recording ''P_fvseof_sink'' (toy_solver ''P_fvseof_sink'')) line_fit
     (toy_analyzer FVSEOF) 2 False True 1 (toy_model_with_sink FVSEOF) (0, [])
   = (Inr (map (\<lambda>x. x\<lparr>essentiality := None\<rparr>) toy_fv_targets),
      toy_model_with_sink FVSEOF, (2, [0, 1 / 2]))"
  by code_simp

lemma steps_single: "steps_lower_bounds 1 y = [0]"
  by (simp add: steps_lower_bounds_def upto.simps)

lemma find_slopes_raises:
  assumes "\<forall>ys. \<exists>e. pf lbs ys = Inl e" and "ids \<noteq> []"
  shows "\<exists>e. find_slopes pf lbs psf ids acc = Inl e"
proof -
  from assms(2) obtain i rest where ids: "ids = i # rest" by (cases ids) auto
  show ?thesis
  proof (cases "psf i")
    case None
    then show ?thesis by (simp add: ids)
  next
    case (Some fs)
    from assms(1) obtain e where "pf lbs fs = Inl e" by blast
    with Some show ?thesis by (simp add: ids)
  qed
qed

lemma finish_run_raises:
  assumes "\<forall>ys. \<exists>e. pf lbs ys = Inl e"
  shows "\<exists>e. finish_run ls pf self chk lbs psf m s = (Inl e, m, s)"
proof (cases "reaction_ids m = []")
  case True
  then show ?thesis by (simp add: finish_run_def rank_fvseof_def)
next
  case False
  from find_slopes_raises [where pf = pf and lbs = lbs, OF assms False] obtain e where
    "find_slopes pf lbs psf (reaction_ids m) Map.empty = Inl e" by blast
  then show ?thesis by (simp add: finish_run_def split: sum.splits)
qed

lemma toy_single_step_run:
  "FVSEOF_run (toy_fva ''P_fvseof_sink'') (toy_solver ''P_fvseof_sink'') line_fit
     (toy_analyzer FVSEOF) 1 True True 1 (toy_model_with_sink FVSEOF) 0
   = (Inl (FitError ''undetermined''), toy_model_with_sink FVSEOF, 1)"
  by code_simp

section \<open>Construction, essentiality and scoped edits: the claims\<close>

text \<open>
  Claim C7. The sink reaction either analyzer builds for a target metabolite has that
  metabolite as its only metabolite, with coefficient \<open>-1\<close>, and the bounds \<open>[0, 1000]\<close>.
  Its id is the metabolite id followed by a suffix fixed by the variant, so the two
  variants never name their sinks alike; the injector returns that id, and a model that
  had neither id holds both sink reactions after both injectors ran on it.
\<close>

theorem sink_reaction_injected:
  "r_id (product_sink_reaction v t) = t @ sink_suffix v
   \<and> r_metabolites (product_sink_reaction v t) = [(t, - 1)]
   \<and> lower_bound (product_sink_reaction v t) = 0
   \<and> upper_bound (product_sink_reaction v t) = 1000
   \<and> t @ sink_suffix FSEOF_FS \<noteq> t @ sink_suffix FVSEOF
   \<and> (t \<in> set (metabolites m) \<longrightarrow>
        fst (add_product_sink_reaction v t m) = Inr (t @ sink_suffix v))
   \<and> (t \<in> set (metabolites m) \<and> t @ sink_suffix v \<notin> set (reaction_ids m) \<longrightarrow>
        get_by_id (reactions (snd (add_product_sink_reaction v t m))) (t @ sink_suffix v)
          = Inr (product_sink_reaction v t))
   \<and> (t \<in> set (metabolites m)
        \<and> t @ sink_suffix FSEOF_FS \<notin> set (reaction_ids m)
        \<and> t @ sink_suffix FVSEOF \<notin> set (reaction_ids m) \<longrightarrow>
        get_by_id (reactions (snd (add_product_sink_reaction FVSEOF t
            (snd (add_product_sink_reaction FSEOF_FS t m))))) (t @ sink_suffix FSEOF_FS)
          = Inr (product_sink_reaction FSEOF_FS t)
        \<and> get_by_id (reactions (snd (add_product_sink_reaction FVSEOF t
            (snd (add_product_sink_reaction FSEOF_FS t m))))) (t @ sink_suffix FVSEOF)
          = Inr (product_sink_reaction FVSEOF t))"
proof (intro conjI impI)
  show "r_id (product_sink_reaction v t) = t @ sink_suffix v"
    and "r_metabolites (product_sink_reaction v t) = [(t, - 1)]"
    and "lower_bound (product_sink_reaction v t) = 0"
    and "upper_bound (product_sink_reaction v t) = 1000"
    by (simp_all add: product_sink_reaction_def)
  show "t @ sink_suffix FSEOF_FS \<noteq> t @ sink_suffix FVSEOF"
    by simp
  show "fst (add_product_sink_reaction v t m) = Inr (t @ sink_suffix v)"
    if "t \<in> set (metabolites m)"
    using that by (simp add: add_product_sink_reaction_ok)
  show "get_by_id (reactions (snd (add_product_sink_reaction v t m))) (t @ sink_suffix v)
          = Inr (product_sink_reaction v t)"
    if "t \<in> set (metabolites m) \<and> t @ sink_suffix v \<notin> set (reaction_ids m)"
    using that by (simp add: add_product_sink_reaction_ok get_added_sink)
  assume h: "t \<in> set (metabolites m)
        \<and> t @ sink_suffix FSEOF_FS \<notin> set (reaction_ids m)
        \<and> t @ sink_suffix FVSEOF \<notin> set (reaction_ids m)"
  show "get_by_id (reactions (snd (add_product_sink_reaction FVSEOF t
            (snd (add_product_sink_reaction FSEOF_FS t m))))) (t @ sink_suffix FSEOF_FS)
          = Inr (product_sink_reaction FSEOF_FS t)"
    using h get_both_sinks(1) [of t m] by (simp add: add_product_sink_reaction_ok)
  show "get_by_id (reactions (snd (add_product_sink_reaction FVSEOF t
            (snd (add_product_sink_reaction FSEOF_FS t m))))) (t @ sink_suffix FVSEOF)
          = Inr (product_sink_reaction FVSEOF t)"
    using h get_both_sinks(2) [of t m] by (simp add: add_product_sink_reaction_ok)
qed

theorem sink_reaction_injected_witness:
  "fst (add_product_sink_reaction FSEOF_FS ''P'' toy_model) = Inr ''P_sink''
   \<and> fst (add_product_sink_reaction FVSEOF ''P'' toy_model) = Inr ''P_fvseof_sink''
   \<and> get_by_id (reactions (snd (add_product_sink_reaction FVSEOF ''P''
        (snd (add_product_sink_reaction FSEOF_FS ''P'' toy_model))))) ''P_sink''
      = Inr \<lparr>r_id = ''P_sink'', r_name = [], gene_reaction_rule = [], lower_bound = 0,
              upper_bound = 1000, r_metabolites = [(''P'', - 1)]\<rparr>
   \<and> get_by_id (reactions (snd (add_product_sink_reaction FVSEOF ''P''
        (snd (add_product_sink_reaction FSEOF_FS ''P'' toy_model))))) ''P_fvseof_sink''
      = Inr \<lparr>r_id = ''P_fvseof_sink'', r_name = [], gene_reaction_rule = [], lower_bound = 0,
              upper_bound = 1000, r_metabolites = [(''P'', - 1)]\<rparr>"
proof -
  have h: "''P'' \<in> set (metabolites toy_model)
      \<and> ''P'' @ sink_suffix FSEOF_FS \<notin> set (reaction_ids toy_model)
      \<and> ''P'' @ sink_suffix FVSEOF \<notin> set (reaction_ids toy_model)"
    by (simp add: toy_model_def reaction_ids_def)
  show ?thesis
    using h sink_reaction_injected [of FSEOF_FS "''P''" toy_model]
      sink_reaction_injected [of FVSEOF "''P''" toy_model]
    by (simp add: Let_def product_sink_reaction_def)
qed

text \<open>
  Claim C6. Construction with a biomass reaction id that is not a reaction id of the
  model, or with a target metabolite id that is not a metabolite id of the model, ends
  in an assertion error with the model as it was (no sink added) and the solver state as
  it was (no solve); with both ids in the model the only error construction can end in
  is one the solver raised.
\<close>

theorem init_validates_ids:
  "(b \<notin> set (reaction_ids m) \<longrightarrow>
      init v ls b t thr m s = (Inl (AssertionError ''Biomass reaction not in model.''), m, s))
   \<and> (b \<in> set (reaction_ids m) \<and> t \<notin> set (metabolites m) \<longrightarrow>
      init v ls b t thr m s = (Inl (AssertionError ''Target metabolite not in model.''), m, s))
   \<and> (b \<in> set (reaction_ids m) \<and> t \<in> set (metabolites m) \<longrightarrow>
      (\<exists>a. fst (init v ls b t thr m s) = Inr a)
      \<or> (\<exists>x. fst (init v ls b t thr m s) = Inl (SolverError x)))"
  using init_bad_biomass [of b m v ls t thr s] init_bad_target [of b m t v ls thr s]
    init_good [of b m t v ls thr s]
  by blast

theorem init_validates_ids_witness:
  "init FSEOF_FS (toy_solver ''P_sink'') ''GROWTH'' ''P'' (1 / 2) toy_model 0
     = (Inl (AssertionError ''Biomass reaction not in model.''), toy_model, 0)
   \<and> init FVSEOF (toy_solver ''P_fvseof_sink'') ''BIO'' ''Q'' (1 / 2) toy_model 0
     = (Inl (AssertionError ''Target metabolite not in model.''), toy_model, 0)
   \<and> ((\<exists>a. fst (init FSEOF_FS (toy_solver ''P_sink'') ''BIO'' ''P'' (1 / 2) toy_model 0) = Inr a)
      \<or> (\<exists>x. fst (init FSEOF_FS (toy_solver ''P_sink'') ''BIO'' ''P'' (1 / 2) toy_model 0)
             = Inl (SolverError x)))"
proof -
  have h1: "''GROWTH'' \<notin> set (reaction_ids toy_model)"
    by (simp add: toy_model_def reaction_ids_def)
  have h2: "''BIO'' \<in> set (reaction_ids toy_model) \<and> ''Q'' \<notin> set (metabolites toy_model)"
    by (simp add: toy_model_def reaction_ids_def)
  have h3: "''BIO'' \<in> set (reaction_ids toy_model) \<and> ''P'' \<in> set (metabolites toy_model)"
    by (simp add: toy_model_def reaction_ids_def)
  show ?thesis
    using h1 h2 h3
      init_validates_ids [of "''GROWTH''" toy_model FSEOF_FS "toy_solver ''P_sink''" "''P''" "1 / 2" 0]
      init_validates_ids [of "''BIO''" toy_model FVSEOF "toy_solver ''P_fvseof_sink''" "''Q''" "1 / 2" 0]
      init_validates_ids [of "''BIO''" toy_model FSEOF_FS "toy_solver ''P_sink''" "''P''" "1 / 2" 0]
    by blast
qed

text \<open>
  Claim C2. \<open>check_essential_reaction\<close> assigns the reaction's lower bound and then its
  upper bound before its \<^verbatim>\<open>try\<close> begins. For a reaction of the model whose upper bound is
  negative the first assignment raises the value error of the bounds check: the error leaves
  the method, no boolean is returned, and the model is restored. For a reaction whose upper
  bound is not negative the method returns a boolean. It solves the model whose objective is
  the biomass reaction and in which the reaction's bounds are both \<open>0\<close>; the result is true
  exactly when that solve raises or the biomass flux divided by \<open>maximal_biomass_growth\<close> is
  less than the threshold, so no error of the solver leaves the method. An analyzer
  constructed without a threshold has the threshold \<open>1/2\<close>.
\<close>

theorem check_essential_reaction_result:
  assumes "get_by_id (reactions m) rid = Inr r"
  shows "(upper_bound r < 0 \<longrightarrow>
            check_essential_reaction ls self rid m s = (Inl ValueError, m, s))
     \<and> (0 \<le> upper_bound r \<longrightarrow>
          (\<exists>b. fst (check_essential_reaction ls self rid m s) = Inr b
            \<and> (b \<longleftrightarrow>
                 (\<exists>e. fst (ls s (knockout_model self rid m)) = Inl e)
                 \<or> (\<exists>sol. fst (ls s (knockout_model self rid m)) = Inr sol
                      \<and> np_less (np_div (sol (biomass_reaction_id self)) (maximal_biomass_growth self))
                           (check_essential_reaction_threshold self))))
          \<and> objective (knockout_model self rid m) = biomass_reaction_id self
          \<and> get_by_id (reactions (knockout_model self rid m)) rid
               = Inr (r\<lparr>lower_bound := 0, upper_bound := 0\<rparr>))
     \<and> (maximal_biomass_growth self \<noteq> 0 \<longrightarrow>
          (\<forall>x t. np_less (np_div x (maximal_biomass_growth self)) t
                   \<longleftrightarrow> x / maximal_biomass_growth self < t))
     \<and> (\<forall>v b t m0 s0 a. fst (init_default v ls b t m0 s0) = Inr a
            \<longrightarrow> check_essential_reaction_threshold a = 1 / 2)"
proof (intro conjI impI)
  assume "upper_bound r < 0"
  with assms show "check_essential_reaction ls self rid m s = (Inl ValueError, m, s)"
    by (rule check_essential_raises)
next
  assume ub: "0 \<le> upper_bound r"
  show "\<exists>b. fst (check_essential_reaction ls self rid m s) = Inr b
          \<and> (b \<longleftrightarrow>
               (\<exists>e. fst (ls s (knockout_model self rid m)) = Inl e)
               \<or> (\<exists>sol. fst (ls s (knockout_model self rid m)) = Inr sol
                    \<and> np_less (np_div (sol (biomass_reaction_id self)) (maximal_biomass_growth self))
                         (check_essential_reaction_threshold self)))"
    using check_essential_value [OF assms ub, of ls self s]
    by (cases "fst (ls s (knockout_model self rid m))") auto
next
  assume ub: "0 \<le> upper_bound r"
  show "objective (knockout_model self rid m) = biomass_reaction_id self"
    by (rule knockout_steps(2) [OF assms ub])
next
  assume ub: "0 \<le> upper_bound r"
  show "get_by_id (reactions (knockout_model self rid m)) rid
          = Inr (r\<lparr>lower_bound := 0, upper_bound := 0\<rparr>)"
    by (rule knockout_steps(3) [OF assms ub])
next
  assume "maximal_biomass_growth self \<noteq> 0"
  then show "\<forall>x t. np_less (np_div x (maximal_biomass_growth self)) t
                   \<longleftrightarrow> x / maximal_biomass_growth self < t"
    by (simp add: np_div_nonzero)
next
  show "\<forall>v b t m0 s0 a. fst (init_default v ls b t m0 s0) = Inr a
            \<longrightarrow> check_essential_reaction_threshold a = 1 / 2"
    unfolding init_default_def
    by (metis init_threshold prod.collapse)
qed

theorem check_essential_reaction_result_witness:
  "check_essential_reaction (toy_solver ''P_sink'') (toy_analyzer FSEOF_FS) ''EX'' uptake_model 0
     = (Inl ValueError, uptake_model, 0)
   \<and> fst (check_essential_reaction (toy_solver ''P_sink'') (toy_analyzer FSEOF_FS) ''R1''
          (toy_model_with_sink FSEOF_FS) 0) = Inr True
   \<and> fst (check_essential_reaction (toy_solver ''P_sink'') (toy_analyzer FSEOF_FS) ''R2''
          (toy_model_with_sink FSEOF_FS) 0) = Inr True
   \<and> fst (check_essential_reaction (toy_solver ''P_sink'') (toy_analyzer FSEOF_FS) ''R3''
          (toy_model_with_sink FSEOF_FS) 0) = Inr False"
proof -
  let ?ls = "toy_solver ''P_sink''" and ?a = "toy_analyzer FSEOF_FS"
  let ?m = "toy_model_with_sink FSEOF_FS"
  let ?r = "\<lambda>i n g ms. \<lparr>r_id = i, r_name = n, gene_reaction_rule = g,
      lower_bound = - 1000, upper_bound = 1000, r_metabolites = ms\<rparr>"
  let ?ex = "\<lparr>r_id = ''EX'', r_name = ''uptake'', gene_reaction_rule = [],
      lower_bound = - 10, upper_bound = - 10, r_metabolites = []\<rparr>"
  have h0: "get_by_id (reactions uptake_model) ''EX'' = Inr ?ex"
    by (simp add: uptake_model_def toy_model_with_sink_def add_reactions_def toy_model_def
          product_sink_reaction_def reaction_ids_def)
  have h1: "get_by_id (reactions ?m) ''R1'' = Inr (?r ''R1'' ''one'' ''g1'' [(''P'', 1)])"
    and h2: "get_by_id (reactions ?m) ''R2'' = Inr (?r ''R2'' ''two'' ''g2'' [])"
    and h3: "get_by_id (reactions ?m) ''R3'' = Inr (?r ''R3'' ''three'' ''g3'' [])"
    by (simp_all add: toy_model_with_sink_def add_reactions_def toy_model_def
          product_sink_reaction_def reaction_ids_def)
  have e1: "fst (?ls 0 (knockout_model ?a ''R1'' ?m)) = Inl ''infeasible''"
    by (simp add: toy_solver_def toy_fluxes_def knockout_model_def toy_model_with_sink_def
          add_reactions_def toy_model_def toy_analyzer_def product_sink_reaction_def
          reaction_ids_def knocked_out_def level_of_def set_upper_bound_def set_lower_bound_def
          set_objective_def record_undo_def enter_context_def)
  have e2: "\<exists>sol. fst (?ls 0 (knockout_model ?a ''R2'' ?m)) = Inr sol \<and> sol ''BIO'' = 1 / 5"
    by (simp add: toy_solver_def toy_fluxes_def knockout_model_def toy_model_with_sink_def
          add_reactions_def toy_model_def toy_analyzer_def product_sink_reaction_def
          reaction_ids_def knocked_out_def level_of_def set_upper_bound_def set_lower_bound_def
          set_objective_def record_undo_def enter_context_def)
  have e3: "\<exists>sol. fst (?ls 0 (knockout_model ?a ''R3'' ?m)) = Inr sol \<and> sol ''BIO'' = 1"
    by (simp add: toy_solver_def toy_fluxes_def knockout_model_def toy_model_with_sink_def
          add_reactions_def toy_model_def toy_analyzer_def product_sink_reaction_def
          reaction_ids_def knocked_out_def level_of_def set_upper_bound_def set_lower_bound_def
          set_objective_def record_undo_def enter_context_def)
  have a: "biomass_reaction_id ?a = ''BIO''" "maximal_biomass_growth ?a = 1"
    "check_essential_reaction_threshold ?a = 1 / 2"
    by (simp_all add: toy_analyzer_def)
  show ?thesis
    using check_essential_reaction_result [OF h0, of ?ls ?a 0]
      check_essential_reaction_result [OF h1, of ?ls ?a 0]
      check_essential_reaction_result [OF h2, of ?ls ?a 0]
      check_essential_reaction_result [OF h3, of ?ls ?a 0]
      e1 e2 e3
    by (auto simp: a np_div_def)
qed

text \<open>
  Claim C5. Every probe leaves the shared model exactly as it found it, whatever the
  solver does (returns or raises): the two capacity probes, the essentiality check, the
  flux aggregation at one production level of either analyzer, and so both runs as a
  whole. Construction leaves the model as it was or with the sink reaction added, and
  nothing else.
\<close>

theorem scoped_probes_restore_model:
  "fst (snd (calc_product_maximal_theoretical_yield ls i m s)) = m
   \<and> fst (snd (calc_maximal_biomass_growth ls i m s)) = m
   \<and> fst (snd (check_essential_reaction ls self rid m s)) = m
   \<and> fst (snd (average_fluxes_at ls self fraction n m s)) = m
   \<and> fst (snd (probe_step fa ls self fva np lb psf m s)) = m
   \<and> fst (snd (FSEOF_FS_run ls self fl fh chk n m s)) = m
   \<and> fst (snd (FVSEOF_run fa ls pf self k chk fva np m s)) = m
   \<and> (fst (snd (init v ls b t thr m s)) = m
       \<or> fst (snd (init v ls b t thr m s)) = add_reactions [product_sink_reaction v t] m)"
proof (intro conjI)
  show "fst (snd (calc_product_maximal_theoretical_yield ls i m s)) = m"
    by (rule calc_yield_frame)
  show "fst (snd (calc_maximal_biomass_growth ls i m s)) = m"
    by (rule calc_growth_frame)
  show "fst (snd (check_essential_reaction ls self rid m s)) = m"
    by (rule check_essential_frame)
  show "fst (snd (average_fluxes_at ls self fraction n m s)) = m"
    by (rule average_fluxes_frame)
  show "fst (snd (probe_step fa ls self fva np lb psf m s)) = m"
    by (rule probe_step_frame)
  show "fst (snd (FSEOF_FS_run ls self fl fh chk n m s)) = m"
    using FSEOF_FS_run_frameD [of ls self fl fh chk n m s] by (metis prod.collapse)
  show "fst (snd (FVSEOF_run fa ls pf self k chk fva np m s)) = m"
    using FVSEOF_run_frameD [of fa ls pf self k chk fva np m s] by (metis prod.collapse)
  show "fst (snd (init v ls b t thr m s)) = m
       \<or> fst (snd (init v ls b t thr m s)) = add_reactions [product_sink_reaction v t] m"
  proof -
    obtain r m' s' where e: "init v ls b t thr m s = (r, m', s')"
      by (cases "init v ls b t thr m s") auto
    from init_frameD [OF e] show ?thesis
      by (cases r) (auto simp: e)
  qed
qed

theorem scoped_probes_restore_model_witness:
  "fst (snd (check_essential_reaction (toy_solver ''P_sink'') (toy_analyzer FSEOF_FS) ''R1''
          (toy_model_with_sink FSEOF_FS) 0)) = toy_model_with_sink FSEOF_FS
   \<and> knockout_model (toy_analyzer FSEOF_FS) ''R1'' (toy_model_with_sink FSEOF_FS)
        \<noteq> toy_model_with_sink FSEOF_FS
   \<and> fst (snd (init FSEOF_FS (toy_solver ''P_sink'') ''BIO'' ''P'' (1 / 2) toy_model 0))
        = add_reactions [product_sink_reaction FSEOF_FS ''P''] toy_model"
proof -
  have k: "contexts (knockout_model (toy_analyzer FSEOF_FS) ''R1'' (toy_model_with_sink FSEOF_FS))
      \<noteq> contexts (toy_model_with_sink FSEOF_FS)"
    by code_simp
  have i: "fst (snd (init FSEOF_FS (toy_solver ''P_sink'') ''BIO'' ''P'' (1 / 2) toy_model 0))
        \<noteq> toy_model"
    by code_simp
  show ?thesis
    using scoped_probes_restore_model [of "toy_solver ''P_sink''" "''P_sink''"
        "toy_model_with_sink FSEOF_FS" 0 "toy_analyzer FSEOF_FS" "''R1''"]
      scoped_probes_restore_model [where ls = "toy_solver ''P_sink''" and m = toy_model
        and s = 0 and v = FSEOF_FS and b = "''BIO''" and t = "''P''" and thr = "1 / 2"]
      k i
    by auto
qed

section \<open>Classification and ranking: the claims\<close>

text \<open>
  Claim C3. When \<^verbatim>\<open>FSEOF_FS.run\<close> returns a table, every reaction of the model has a mean
  flux at the low and at the high level, and it has a row exactly when the product of the
  two is greater than zero. A row carries those two means, its target type is \<open>Up\<close> when
  the high mean is larger in absolute value and \<open>Down\<close> otherwise, and its score is the
  absolute value of the difference of the two means.
\<close>

theorem FSEOF_FS_run_classification:
  assumes "FSEOF_FS_run ls self fl fh chk n m s = (Inr df, m', s')"
  shows "\<exists>lo hi s1 s2.
           average_fluxes_at ls self fl n m s = (Inr lo, m, s1)
           \<and> average_fluxes_at ls self fh n m s1 = (Inr hi, m, s2)
           \<and> (\<forall>i\<in>set (reaction_ids m). \<exists>a b. lo i = Some a \<and> hi i = Some b
                  \<and> ((\<exists>row\<in>set df. reaction_id row = i) \<longleftrightarrow> 0 < a * b))
           \<and> (\<forall>row\<in>set df.
                  reaction_id row \<in> set (reaction_ids m)
                  \<and> lo (reaction_id row) = Some (mean_flux_low row)
                  \<and> hi (reaction_id row) = Some (mean_flux_high row)
                  \<and> target_type row =
                      (if \<bar>mean_flux_high row\<bar> > \<bar>mean_flux_low row\<bar> then ''Up'' else ''Down'')
                  \<and> abs_diff_mean_fluxes row = \<bar>mean_flux_low row - mean_flux_high row\<bar>)"
proof -
  from FSEOF_FS_run_stages [OF assms] obtain lo hi s1 s2 df_data where
    a1: "average_fluxes_at ls self fl n m s = (Inr lo, m, s1)"
    and a2: "average_fluxes_at ls self fh n m s1 = (Inr hi, m, s2)"
    and c: "classify_reactions ls self chk lo hi (reaction_ids m) [] m s2 = (Inr df_data, m, s')"
    and r: "rank_targets chk df_data = Inr df"
    by blast
  have df: "set df = add_abs_diff ` set df_data"
    by (rule rank_targets_rows(2) [OF r])
  have ids: "reaction_id ` set df_data =
      {i \<in> set (reaction_ids m). \<exists>a b. lo i = Some a \<and> hi i = Some b \<and> 0 < a * b}"
    using classify_ids [OF c] by simp
  have ids': "reaction_id ` set df = reaction_id ` set df_data"
    unfolding df by (simp add: image_image add_abs_diff_fields)
  have def: "\<forall>i\<in>set (reaction_ids m). \<exists>a b. lo i = Some a \<and> hi i = Some b"
    by (rule classify_defined [OF c])
  have rows: "\<forall>x\<in>set df_data. classified lo hi x"
    using classify_rows [OF c] by simp
  have p1: "\<forall>i\<in>set (reaction_ids m). \<exists>a b. lo i = Some a \<and> hi i = Some b
                  \<and> ((\<exists>row\<in>set df. reaction_id row = i) \<longleftrightarrow> 0 < a * b)"
  proof
    fix i assume i: "i \<in> set (reaction_ids m)"
    with def obtain a b where ab: "lo i = Some a" "hi i = Some b" by blast
    have "(\<exists>row\<in>set df. reaction_id row = i) \<longleftrightarrow> i \<in> reaction_id ` set df"
      by auto
    also have "\<dots> \<longleftrightarrow> 0 < a * b"
      unfolding ids' ids using i ab by simp
    finally show "\<exists>a b. lo i = Some a \<and> hi i = Some b
                  \<and> ((\<exists>row\<in>set df. reaction_id row = i) \<longleftrightarrow> 0 < a * b)"
      using ab by blast
  qed
  have p2: "\<forall>row\<in>set df.
                  reaction_id row \<in> set (reaction_ids m)
                  \<and> lo (reaction_id row) = Some (mean_flux_low row)
                  \<and> hi (reaction_id row) = Some (mean_flux_high row)
                  \<and> target_type row =
                      (if \<bar>mean_flux_high row\<bar> > \<bar>mean_flux_low row\<bar> then ''Up'' else ''Down'')
                  \<and> abs_diff_mean_fluxes row = \<bar>mean_flux_low row - mean_flux_high row\<bar>"
  proof
    fix row assume "row \<in> set df"
    then obtain x where x: "x \<in> set df_data" and row: "row = add_abs_diff x"
      unfolding df by blast
    from x rows have cl: "classified lo hi x" by blast
    from x ids have "reaction_id x \<in> set (reaction_ids m)" by blast
    with cl show "reaction_id row \<in> set (reaction_ids m)
                  \<and> lo (reaction_id row) = Some (mean_flux_low row)
                  \<and> hi (reaction_id row) = Some (mean_flux_high row)
                  \<and> target_type row =
                      (if \<bar>mean_flux_high row\<bar> > \<bar>mean_flux_low row\<bar> then ''Up'' else ''Down'')
                  \<and> abs_diff_mean_fluxes row = \<bar>mean_flux_low row - mean_flux_high row\<bar>"
      unfolding row classified_def by (simp add: add_abs_diff_fields)
  qed
  from a1 a2 p1 p2 show ?thesis by blast
qed

theorem FSEOF_FS_run_classification_witness:
  "FSEOF_FS_run (toy_solver ''P_sink'') (toy_analyzer FSEOF_FS) (1 / 5) (3 / 10) True 2
     (toy_model_with_sink FSEOF_FS) 0
     = (Inr toy_targets, toy_model_with_sink FSEOF_FS, 9)
   \<and> (\<exists>lo hi s1 s2.
         average_fluxes_at (toy_solver ''P_sink'') (toy_analyzer FSEOF_FS) (1 / 5) 2
           (toy_model_with_sink FSEOF_FS) 0 = (Inr lo, toy_model_with_sink FSEOF_FS, s1)
         \<and> average_fluxes_at (toy_solver ''P_sink'') (toy_analyzer FSEOF_FS) (3 / 10) 2
           (toy_model_with_sink FSEOF_FS) s1 = (Inr hi, toy_model_with_sink FSEOF_FS, s2)
         \<and> lo ''R2'' = Some (1 / 5) \<and> hi ''R2'' = Some (- 1 / 5)
         \<and> \<not> (\<exists>row\<in>set toy_targets. reaction_id row = ''R2'')
         \<and> lo ''R3'' = Some (6 / 5) \<and> hi ''R3'' = Some (13 / 10)
         \<and> (\<exists>row\<in>set toy_targets. reaction_id row = ''R3''))"
proof -
  let ?M = "toy_model_with_sink FSEOF_FS"
  let ?ls = "toy_solver ''P_sink''" and ?A = "toy_analyzer FSEOF_FS"
  from FSEOF_FS_run_classification [OF toy_FSEOF_FS_run] obtain lo hi s1 s2 where
    lo: "average_fluxes_at ?ls ?A (1 / 5) 2 ?M 0 = (Inr lo, ?M, s1)"
    and hi: "average_fluxes_at ?ls ?A (3 / 10) 2 ?M s1 = (Inr hi, ?M, s2)"
    and rest: "(\<forall>i\<in>set (reaction_ids ?M). \<exists>a b. lo i = Some a \<and> hi i = Some b
                  \<and> ((\<exists>row\<in>set toy_targets. reaction_id row = i) \<longleftrightarrow> 0 < a * b))
           \<and> (\<forall>row\<in>set toy_targets.
                  reaction_id row \<in> set (reaction_ids ?M)
                  \<and> lo (reaction_id row) = Some (mean_flux_low row)
                  \<and> hi (reaction_id row) = Some (mean_flux_high row)
                  \<and> target_type row =
                      (if \<bar>mean_flux_high row\<bar> > \<bar>mean_flux_low row\<bar> then ''Up'' else ''Down'')
                  \<and> abs_diff_mean_fluxes row = \<bar>mean_flux_low row - mean_flux_high row\<bar>)"
    by (elim exE conjE) (rule that, assumption, assumption, intro conjI, assumption+)
  have r3m: "toy_targets ! 0 \<in> set toy_targets"
    by (simp add: toy_targets_def)
  with rest have "lo (reaction_id (toy_targets ! 0)) = Some (mean_flux_low (toy_targets ! 0))
      \<and> hi (reaction_id (toy_targets ! 0)) = Some (mean_flux_high (toy_targets ! 0))"
    by blast
  then have r3: "lo ''R3'' = Some (6 / 5) \<and> hi ''R3'' = Some (13 / 10)"
    by (simp add: toy_targets_def)
  have yes: "\<exists>row\<in>set toy_targets. reaction_id row = ''R3''"
    by (simp add: toy_targets_def)
  have no: "\<not> (\<exists>row\<in>set toy_targets. reaction_id row = ''R2'')"
    by (simp add: toy_targets_def)
  have fifth: "(1 / 5 :: real) \<le> 1000" and three_tenths: "(3 / 10 :: real) \<le> 1000"
    by simp_all
  from toy_average [where fr = "1 / 5" and k = 0, OF fifth] obtain lo' where
    l1: "average_fluxes_at ?ls ?A (1 / 5) 2 ?M 0 = (Inr lo', ?M, Suc (Suc 0))"
    and l2: "lo' ''R2'' = Some (1 - 4 * (1 / 5))"
    by (elim exE conjE)
  from lo l1 have eq1: "lo = lo'" and s1: "s1 = Suc (Suc 0)" by simp_all
  from toy_average [where fr = "3 / 10" and k = "Suc (Suc 0)", OF three_tenths] obtain hi' where
    h1: "average_fluxes_at ?ls ?A (3 / 10) 2 ?M (Suc (Suc 0)) = (Inr hi', ?M, Suc (Suc (Suc (Suc 0))))"
    and h2: "hi' ''R2'' = Some (1 - 4 * (3 / 10))"
    by (elim exE conjE)
  from hi h1 have eq2: "hi = hi'" unfolding s1 by simp
  have lo2: "lo ''R2'' = Some (1 / 5)" unfolding eq1 l2 by simp
  have hi2: "hi ''R2'' = Some (- 1 / 5)" unfolding eq2 h2 by simp
  show ?thesis
    apply (rule conjI)
     apply (rule toy_FSEOF_FS_run)
    apply (rule exI [of _ lo])
    apply (rule exI [of _ hi])
    apply (rule exI [of _ s1])
    apply (rule exI [of _ s2])
    using lo hi lo2 hi2 no r3 yes apply simp
    done
qed

text \<open>
  Claim C10. A run of \<^verbatim>\<open>FSEOF_FS.run\<close> in which both levels give a mean flux for every
  reaction and no reaction has a product of the two greater than zero does not return an
  empty table: the frame built from no record has no column, and the run raises the value
  error of the statement that adds the score column to it, before the sort is reached. No
  run returns an empty table.
\<close>

theorem FSEOF_FS_run_no_target:
  "(average_fluxes_at ls self fl n m s = (Inr lo, ma, sa)
    \<and> average_fluxes_at ls self fh n ma sa = (Inr hi, mb, sb)
    \<and> (\<forall>i\<in>set (reaction_ids m). \<exists>a b. lo i = Some a \<and> hi i = Some b \<and> \<not> 0 < a * b)
    \<longrightarrow> fst (FSEOF_FS_run ls self fl fh chk n m s) = Inl ValueError)
   \<and> fst (FSEOF_FS_run ls self fl fh chk n m s) \<noteq> Inr []"
proof (intro conjI impI)
  assume h: "average_fluxes_at ls self fl n m s = (Inr lo, ma, sa)
    \<and> average_fluxes_at ls self fh n ma sa = (Inr hi, mb, sb)
    \<and> (\<forall>i\<in>set (reaction_ids m). \<exists>a b. lo i = Some a \<and> hi i = Some b \<and> \<not> 0 < a * b)"
  then have a1: "average_fluxes_at ls self fl n m s = (Inr lo, ma, sa)"
    and a2: "average_fluxes_at ls self fh n ma sa = (Inr hi, mb, sb)"
    and none: "\<forall>i\<in>set (reaction_ids m). \<exists>a b. lo i = Some a \<and> hi i = Some b \<and> \<not> 0 < a * b"
    by simp_all
  have ma: "ma = m" by (rule average_fluxes_frameD [OF a1])
  have mb: "mb = m" using average_fluxes_frameD [OF a2] ma by simp
  have c: "classify_reactions ls self chk lo hi (reaction_ids m) [] m sb = (Inr [], m, sb)"
    by (rule classify_none [OF none])
  show "fst (FSEOF_FS_run ls self fl fh chk n m s) = Inl ValueError"
    using a1 a2 c unfolding FSEOF_FS_run_def ma mb
    by (simp add: rank_targets_empty)
next
  show "fst (FSEOF_FS_run ls self fl fh chk n m s) \<noteq> Inr []"
    by (rule FSEOF_FS_run_nonempty)
qed

theorem FSEOF_FS_run_no_target_witness:
  "init FSEOF_FS idle_solver ''BIO'' ''P'' (1 / 2) toy_model 0
     = (Inr idle_fs_analyzer, toy_model_with_sink FSEOF_FS, 2)
   \<and> fst (FSEOF_FS_run idle_solver idle_fs_analyzer (1 / 5) (3 / 10) True 2
          (toy_model_with_sink FSEOF_FS) 2) = Inl ValueError"
proof -
  let ?M = "toy_model_with_sink FSEOF_FS" and ?A = "idle_fs_analyzer"
  have built: "init FSEOF_FS idle_solver ''BIO'' ''P'' (1 / 2) toy_model 0 = (Inr ?A, ?M, 2)"
    by code_simp
  from idle_average [of "1 / 5" 2] obtain lo where
    lo: "average_fluxes_at idle_solver ?A (1 / 5) 2 ?M 2 = (Inr lo, ?M, 4)"
    and lo0: "\<forall>i\<in>set (reaction_ids ?M). lo i = Some 0"
    by (auto simp: eval_nat_numeral)
  from idle_average [of "3 / 10" 4] obtain hi where
    hi: "average_fluxes_at idle_solver ?A (3 / 10) 2 ?M 4 = (Inr hi, ?M, 6)"
    and hi0: "\<forall>i\<in>set (reaction_ids ?M). hi i = Some 0"
    by (auto simp: eval_nat_numeral)
  have none: "\<forall>i\<in>set (reaction_ids ?M). \<exists>a b. lo i = Some a \<and> hi i = Some b \<and> \<not> 0 < a * b"
    using lo0 hi0 by simp
  from FSEOF_FS_run_no_target [where ls = idle_solver and self = ?A and fl = "1 / 5"
      and fh = "3 / 10" and n = 2 and m = ?M and s = 2 and lo = lo and hi = hi and ma = ?M
      and sa = 4 and mb = ?M and sb = 6 and chk = True] lo hi none
  have "fst (FSEOF_FS_run idle_solver ?A (1 / 5) (3 / 10) True 2 ?M 2) = Inl ValueError"
    by blast
  with built show ?thesis by simp
qed

text \<open>
  Claim C4. When \<^verbatim>\<open>FVSEOF.run\<close> returns a table for a model whose reaction ids are
  distinct, every reaction has one representative flux per level; it has a row exactly
  when neither the first nor the last of them is zero. The target type of a row is \<open>Up\<close>
  when the product of first and last is at least zero and the last is larger in absolute
  value, \<open>Down\<close> when the product is at least zero and the last is not larger, and
  \<open>Reverse\<close> when the product is negative. Its slope is what the degree-1 fit returns
  for the levels and the fluxes of all levels.
\<close>

theorem FVSEOF_run_classification:
  assumes "FVSEOF_run fa ls pf self k chk fva np m s = (Inr df, m', s')"
    and "distinct (reaction_ids m)"
  shows "\<exists>psf s1.
           sweep fa ls self fva np (steps_lower_bounds k (product_max_theoretical_yield self))
             (map_of (map (\<lambda>i. (i, [])) (reaction_ids m))) m s = (Inr psf, m, s1)
           \<and> (\<forall>i\<in>set (reaction_ids m). \<exists>fs. psf i = Some fs \<and> fs \<noteq> []
                  \<and> length fs = length (steps_lower_bounds k (product_max_theoretical_yield self))
                  \<and> ((\<exists>row\<in>set df. fv_reaction_id row = i) \<longleftrightarrow> hd fs \<noteq> 0 \<and> last fs \<noteq> 0))
           \<and> (\<forall>row\<in>set df. \<exists>fs.
                  fv_reaction_id row \<in> set (reaction_ids m)
                  \<and> psf (fv_reaction_id row) = Some fs
                  \<and> fv_target_type row =
                      (if hd fs * last fs \<ge> 0
                       then (if \<bar>last fs\<bar> > \<bar>hd fs\<bar> then ''Up'' else ''Down'')
                       else ''Reverse'')
                  \<and> pf (steps_lower_bounds k (product_max_theoretical_yield self)) fs
                      = Inr (slope row)
                  \<and> step_columns row = fs)"
proof -
  let ?lbs = "steps_lower_bounds k (product_max_theoretical_yield self)"
  let ?d = "map_of (map (\<lambda>i. (i, [])) (reaction_ids m))"
  from FVSEOF_run_stages [OF assms(1)] obtain psf s1 where
    sw: "sweep fa ls self fva np ?lbs ?d m s = (Inr psf, m, s1)"
    and fin: "finish_run ls pf self chk ?lbs psf m s1 = (Inr df, m', s')"
    by blast
  note rows = FVSEOF_rows [OF fin]
  have len: "\<exists>fs. psf i = Some fs \<and> length fs = length ?lbs" if "i \<in> set (reaction_ids m)" for i
    using sweep_result [OF sw assms(2) that map_of_initial [OF that]] by auto
  have p1: "\<forall>i\<in>set (reaction_ids m). \<exists>fs. psf i = Some fs \<and> fs \<noteq> []
                  \<and> length fs = length ?lbs
                  \<and> ((\<exists>row\<in>set df. fv_reaction_id row = i) \<longleftrightarrow> hd fs \<noteq> 0 \<and> last fs \<noteq> 0)"
  proof
    fix i assume i: "i \<in> set (reaction_ids m)"
    from len [OF i] obtain fs where fs: "psf i = Some fs" "length fs = length ?lbs" by blast
    from rows(2) i fs have ne: "fs \<noteq> []" by auto
    have "(\<exists>row\<in>set df. fv_reaction_id row = i) \<longleftrightarrow> i \<in> fv_reaction_id ` set df" by auto
    also have "\<dots> \<longleftrightarrow> hd fs \<noteq> 0 \<and> last fs \<noteq> 0"
      unfolding rows(1) using i fs by simp
    finally show "\<exists>fs. psf i = Some fs \<and> fs \<noteq> [] \<and> length fs = length ?lbs
                  \<and> ((\<exists>row\<in>set df. fv_reaction_id row = i) \<longleftrightarrow> hd fs \<noteq> 0 \<and> last fs \<noteq> 0)"
      using fs ne by blast
  qed
  have p2: "\<forall>row\<in>set df. \<exists>fs.
                  fv_reaction_id row \<in> set (reaction_ids m)
                  \<and> psf (fv_reaction_id row) = Some fs
                  \<and> fv_target_type row =
                      (if hd fs * last fs \<ge> 0
                       then (if \<bar>last fs\<bar> > \<bar>hd fs\<bar> then ''Up'' else ''Down'')
                       else ''Reverse'')
                  \<and> pf ?lbs fs = Inr (slope row)
                  \<and> step_columns row = fs"
  proof
    fix row assume row: "row \<in> set df"
    with rows(1) have i: "fv_reaction_id row \<in> set (reaction_ids m)" by blast
    from rows(3) row obtain fs where fs: "psf (fv_reaction_id row) = Some fs"
      "fv_target_type row = trend fs" "pf ?lbs fs = Inr (slope row)"
      "step_columns row = take (length ?lbs) fs"
      unfolding fv_classified_def by blast
    from len [OF i] fs(1) have "length fs = length ?lbs" by auto
    with fs i show "\<exists>fs.
                  fv_reaction_id row \<in> set (reaction_ids m)
                  \<and> psf (fv_reaction_id row) = Some fs
                  \<and> fv_target_type row =
                      (if hd fs * last fs \<ge> 0
                       then (if \<bar>last fs\<bar> > \<bar>hd fs\<bar> then ''Up'' else ''Down'')
                       else ''Reverse'')
                  \<and> pf ?lbs fs = Inr (slope row)
                  \<and> step_columns row = fs"
      by (simp add: trend_def)
  qed
  from sw p1 p2 show ?thesis by blast
qed

theorem FVSEOF_run_classification_witness:
  "FVSEOF_run (toy_fva ''P_fvseof_sink'') (toy_solver ''P_fvseof_sink'') line_fit
     (toy_analyzer FVSEOF) 2 True True 1 (toy_model_with_sink FVSEOF) 0
     = (Inr toy_fv_targets, toy_model_with_sink FVSEOF, 7)
   \<and> distinct (reaction_ids (toy_model_with_sink FVSEOF))
   \<and> (\<exists>psf s1.
         sweep (toy_fva ''P_fvseof_sink'') (toy_solver ''P_fvseof_sink'') (toy_analyzer FVSEOF)
           True 1 [0, 1 / 2]
           (map_of (map (\<lambda>i. (i, [])) (reaction_ids (toy_model_with_sink FVSEOF))))
           (toy_model_with_sink FVSEOF) 0 = (Inr psf, toy_model_with_sink FVSEOF, s1)
         \<and> psf ''R2'' = Some [1, - 1] \<and> line_fit [0, 1 / 2] [1, - 1] = Inr (- 4)
         \<and> (\<exists>fs. psf ''R4'' = Some fs \<and> length fs = 2 \<and> \<not> (hd fs \<noteq> 0 \<and> last fs \<noteq> 0)))"
proof -
  let ?M = "toy_model_with_sink FVSEOF" and ?A = "toy_analyzer FVSEOF"
  let ?fa = "toy_fva ''P_fvseof_sink''" and ?ls = "toy_solver ''P_fvseof_sink''"
  have lbs: "steps_lower_bounds 2 (product_max_theoretical_yield ?A) = [0, 1 / 2]"
    by code_simp
  have d: "distinct (reaction_ids ?M)" by (rule toy_distinct)
  from FVSEOF_run_classification [OF toy_FVSEOF_run d, unfolded lbs] obtain psf s1 where
    sw: "sweep ?fa ?ls ?A True 1 [0, 1 / 2] (map_of (map (\<lambda>i. (i, [])) (reaction_ids ?M))) ?M 0
           = (Inr psf, ?M, s1)"
    and ids: "\<forall>i\<in>set (reaction_ids ?M). \<exists>fs. psf i = Some fs \<and> fs \<noteq> []
                  \<and> length fs = length [0 :: real, 1 / 2]
                  \<and> ((\<exists>row\<in>set toy_fv_targets. fv_reaction_id row = i)
                        \<longleftrightarrow> hd fs \<noteq> 0 \<and> last fs \<noteq> 0)"
    and rows: "\<forall>row\<in>set toy_fv_targets. \<exists>fs.
                  fv_reaction_id row \<in> set (reaction_ids ?M)
                  \<and> psf (fv_reaction_id row) = Some fs
                  \<and> fv_target_type row =
                      (if hd fs * last fs \<ge> 0
                       then (if \<bar>last fs\<bar> > \<bar>hd fs\<bar> then ''Up'' else ''Down'')
                       else ''Reverse'')
                  \<and> line_fit [0, 1 / 2] fs = Inr (slope row)
                  \<and> step_columns row = fs"
    by (elim exE conjE) (rule that, assumption+)
  have "toy_fv_targets ! 1 \<in> set toy_fv_targets"
    by (simp add: toy_fv_targets_def)
  with rows obtain fs2 where "psf (fv_reaction_id (toy_fv_targets ! 1)) = Some fs2"
    "line_fit [0, 1 / 2] fs2 = Inr (slope (toy_fv_targets ! 1))"
    "step_columns (toy_fv_targets ! 1) = fs2"
    by blast
  then have r2: "psf ''R2'' = Some [1, - 1]" "line_fit [0, 1 / 2] [1, - 1] = Inr (- 4)"
    by (auto simp: toy_fv_targets_def)
  have "''R4'' \<in> set (reaction_ids ?M)"
    by (simp add: toy_model_with_sink_def add_reactions_def toy_model_def reaction_ids_def)
  with ids obtain fs where fs: "psf ''R4'' = Some fs" "length fs = length [0 :: real, 1 / 2]"
    "(\<exists>row\<in>set toy_fv_targets. fv_reaction_id row = ''R4'') \<longleftrightarrow> hd fs \<noteq> 0 \<and> last fs \<noteq> 0"
    by blast
  have "\<not> (\<exists>row\<in>set toy_fv_targets. fv_reaction_id row = ''R4'')"
    by (simp add: toy_fv_targets_def)
  with fs have r4: "psf ''R4'' = Some fs \<and> length fs = 2 \<and> \<not> (hd fs \<noteq> 0 \<and> last fs \<noteq> 0)"
    by simp
  show ?thesis
    apply (intro conjI)
      apply (rule toy_FVSEOF_run)
     apply (rule d)
    apply (rule exI [of _ psf])
    apply (rule exI [of _ s1])
    using sw r2 r4 apply blast
    done
qed

text \<open>
  Claim C1, as the code has it. In a table returned by either run the rows are ordered by
  target type in descending order of the strings, that is \<open>Up\<close>, then \<open>Reverse\<close>, then
  \<open>Down\<close>: after a \<open>Reverse\<close> row no \<open>Up\<close> row follows, and after a \<open>Down\<close> row only
  \<open>Down\<close> rows follow (\<^verbatim>\<open>FSEOF_FS.run\<close> has no \<open>Reverse\<close> rows). Among rows of one
  type the score of \<^verbatim>\<open>FSEOF_FS.run\<close>, and the absolute value of the slope of
  \<^verbatim>\<open>FVSEOF.run\<close>, never increases down the table.
\<close>

theorem tables_ranked:
  "(FSEOF_FS_run ls self fl fh chk n m s = (Inr df, m', s') \<longrightarrow>
      (\<forall>row\<in>set df. target_type row = ''Up'' \<or> target_type row = ''Down'')
      \<and> (\<forall>i j. i < j \<and> j < length df \<longrightarrow>
            (target_type (df ! i) = ''Down'' \<longrightarrow> target_type (df ! j) = ''Down'')
            \<and> (target_type (df ! i) = target_type (df ! j) \<longrightarrow>
                 abs_diff_mean_fluxes (df ! j) \<le> abs_diff_mean_fluxes (df ! i))))
   \<and> (FVSEOF_run fa ls pf self k chk fva np m s = (Inr dv, mv, sv) \<longrightarrow>
      (\<forall>row\<in>set dv. fv_target_type row = ''Up'' \<or> fv_target_type row = ''Reverse''
            \<or> fv_target_type row = ''Down'')
      \<and> (\<forall>i j. i < j \<and> j < length dv \<longrightarrow>
            (fv_target_type (dv ! i) = ''Reverse'' \<longrightarrow> fv_target_type (dv ! j) \<noteq> ''Up'')
            \<and> (fv_target_type (dv ! i) = ''Down'' \<longrightarrow> fv_target_type (dv ! j) = ''Down'')
            \<and> (fv_target_type (dv ! i) = fv_target_type (dv ! j) \<longrightarrow>
                 \<bar>slope (dv ! j)\<bar> \<le> \<bar>slope (dv ! i)\<bar>)))"
  apply (intro conjI impI)
     apply (erule FSEOF_FS_run_order(1))
    apply (erule FSEOF_FS_run_order(2))
   apply (erule FVSEOF_run_order(1))
  apply (erule FVSEOF_run_order(2))
  done

theorem tables_ranked_witness:
  "FSEOF_FS_run (toy_solver ''P_sink'') (toy_analyzer FSEOF_FS) (1 / 5) (3 / 10) True 2
     (toy_model_with_sink FSEOF_FS) 0
     = (Inr toy_targets, toy_model_with_sink FSEOF_FS, 9)
   \<and> FVSEOF_run (toy_fva ''P_fvseof_sink'') (toy_solver ''P_fvseof_sink'') line_fit
     (toy_analyzer FVSEOF) 2 True True 1 (toy_model_with_sink FVSEOF) 0
     = (Inr toy_fv_targets, toy_model_with_sink FVSEOF, 7)
   \<and> target_type (toy_targets ! 3) = ''Down''
   \<and> abs_diff_mean_fluxes (toy_targets ! 3) \<le> abs_diff_mean_fluxes (toy_targets ! 2)
   \<and> fv_target_type (toy_fv_targets ! 2) \<noteq> ''Up''
   \<and> \<bar>slope (toy_fv_targets ! 3)\<bar> \<le> \<bar>slope (toy_fv_targets ! 2)\<bar>"
proof -
  have t: "target_type (toy_targets ! 2) = ''Down''" "target_type (toy_targets ! 3) = ''Down''"
    "(2::nat) < 3 \<and> 3 < length toy_targets"
    by (simp_all add: toy_targets_def)
  have v: "fv_target_type (toy_fv_targets ! 1) = ''Reverse''"
    "fv_target_type (toy_fv_targets ! 2) = ''Down''" "fv_target_type (toy_fv_targets ! 3) = ''Down''"
    "(1::nat) < 2 \<and> 2 < length toy_fv_targets" "(2::nat) < 3 \<and> 3 < length toy_fv_targets"
    by (simp_all add: toy_fv_targets_def)
  note r = tables_ranked [where ls = "toy_solver ''P_sink''" and self = "toy_analyzer FSEOF_FS"
      and fl = "1 / 5" and fh = "3 / 10" and chk = True and n = 2
      and m = "toy_model_with_sink FSEOF_FS" and s = 0 and df = toy_targets
      and m' = "toy_model_with_sink FSEOF_FS" and s' = 9 and dv = "[]"]
  note w = tables_ranked [where fa = "toy_fva ''P_fvseof_sink''"
      and ls = "toy_solver ''P_fvseof_sink''" and pf = line_fit
      and self = "toy_analyzer FVSEOF" and k = 2 and chk = True and fva = True and np = 1
      and m = "toy_model_with_sink FVSEOF" and s = 0 and dv = toy_fv_targets
      and mv = "toy_model_with_sink FVSEOF" and sv = 7 and df = "[]"]
  from r toy_FSEOF_FS_run t
  have a: "abs_diff_mean_fluxes (toy_targets ! 3) \<le> abs_diff_mean_fluxes (toy_targets ! 2)"
    by metis
  from w toy_FVSEOF_run v
  have b: "fv_target_type (toy_fv_targets ! 2) \<noteq> ''Up''"
    and c: "\<bar>slope (toy_fv_targets ! 3)\<bar> \<le> \<bar>slope (toy_fv_targets ! 2)\<bar>"
    by metis+
  from a b c t toy_FSEOF_FS_run toy_FVSEOF_run show ?thesis by blast
qed

text \<open>
  The order as claimed (\<open>Down\<close> rows before \<open>Reverse\<close> rows) fails on the small model:
  with two levels \<open>R2\<close> is a \<open>Reverse\<close> row and stands above the three \<open>Down\<close> rows.
\<close>

theorem reverse_rows_precede_down_rows:
  "fst (FVSEOF_run (toy_fva ''P_fvseof_sink'') (toy_solver ''P_fvseof_sink'') line_fit
     (toy_analyzer FVSEOF) 2 True True 1 (toy_model_with_sink FVSEOF) 0) = Inr toy_fv_targets
   \<and> map fv_target_type toy_fv_targets = [''Up'', ''Reverse'', ''Down'', ''Down'', ''Down'']"
  by (simp add: toy_FVSEOF_run) (simp add: toy_fv_targets_def)

section \<open>The sweep of production levels: the claims\<close>

text \<open>
  Claim C9, as the code has it. For \<open>k \<ge> 1\<close> the levels are \<open>i / k\<close> times the maximal
  theoretical yield for \<open>i = 0, ..., k - 1\<close>, in that order, so the first level is \<open>0\<close>;
  the sweep hands the solver the model with the sink's lower bound at exactly these
  levels, in this order (the recording solver's trace). The fraction \<open>i / k\<close> stays below
  \<open>1\<close>: when the yield is not zero, no level equals the full yield. When the yield is
  zero every level is the full yield.
\<close>

theorem sweep_levels:
  assumes "1 \<le> k"
  shows "length (steps_lower_bounds k y) = nat k
     \<and> (\<forall>i<nat k. steps_lower_bounds k y ! i = real i / real_of_int k * y)
     \<and> hd (steps_lower_bounds k y) = 0
     \<and> (y \<noteq> 0 \<longrightarrow> y \<notin> set (steps_lower_bounds k y))
     \<and> (sweep (recording_fva (product_sink_reaction_id self) fa)
             (recording (product_sink_reaction_id self) ls) self fva np lbs d m (s, [])
           = (Inr psf, m', (s', tr)) \<longrightarrow> tr = lbs)
     \<and> (FVSEOF_run (recording_fva (product_sink_reaction_id self) fa)
             (recording (product_sink_reaction_id self) ls) pf self k False fva np m (s, [])
           = (Inr df, m', (s', tr))
         \<longrightarrow> tr = steps_lower_bounds k (product_max_theoretical_yield self))"
proof (intro conjI impI allI)
  show "length (steps_lower_bounds k y) = nat k" by (rule steps_length)
  show "steps_lower_bounds k y ! i = real i / real_of_int k * y" if "i < nat k" for i
    using that by (rule steps_nth)
  show "hd (steps_lower_bounds k y) = 0" using assms by (rule steps_hd)
  show "y \<notin> set (steps_lower_bounds k y)" if "y \<noteq> 0"
    using that by (rule steps_below_yield)
  show "tr = lbs"
    if "sweep (recording_fva (product_sink_reaction_id self) fa)
             (recording (product_sink_reaction_id self) ls) self fva np lbs d m (s, [])
           = (Inr psf, m', (s', tr))"
    using sweep_log [OF that] by simp
  show "tr = steps_lower_bounds k (product_max_theoretical_yield self)"
    if run: "FVSEOF_run (recording_fva (product_sink_reaction_id self) fa)
             (recording (product_sink_reaction_id self) ls) pf self k False fva np m (s, [])
           = (Inr df, m', (s', tr))"
  proof -
    from FVSEOF_run_stages [OF run] obtain psf1 s1 where
      sw: "sweep (recording_fva (product_sink_reaction_id self) fa)
             (recording (product_sink_reaction_id self) ls) self fva np
             (steps_lower_bounds k (product_max_theoretical_yield self))
             (map_of (map (\<lambda>i. (i, [])) (reaction_ids m))) m (s, []) = (Inr psf1, m, s1)"
      and fin: "finish_run (recording (product_sink_reaction_id self) ls) pf self False
               (steps_lower_bounds k (product_max_theoretical_yield self)) psf1 m s1
               = (Inr df, m', (s', tr))"
      by blast
    from finish_run_quiet [OF fin] have s1: "s1 = (s', tr)" by simp
    from sweep_log [OF sw [unfolded s1]] show ?thesis by simp
  qed
qed

theorem sweep_levels_witness:
  "(1::int) \<le> 2
   \<and> FVSEOF_run (recording_fva ''P_fvseof_sink'' (toy_fva ''P_fvseof_sink''))
       (recording ''P_fvseof_sink'' (toy_solver ''P_fvseof_sink'')) line_fit
       (toy_analyzer FVSEOF) 2 False True 1 (toy_model_with_sink FVSEOF) (0, [])
     = (Inr (map (\<lambda>x. x\<lparr>essentiality := None\<rparr>) toy_fv_targets),
        toy_model_with_sink FVSEOF, (2, [0, 1 / 2]))
   \<and> steps_lower_bounds 2 (product_max_theoretical_yield (toy_analyzer FVSEOF)) = [0, 1 / 2]
   \<and> hd (steps_lower_bounds 2 (product_max_theoretical_yield (toy_analyzer FVSEOF))) = 0
   \<and> product_max_theoretical_yield (toy_analyzer FVSEOF)
        \<notin> set (steps_lower_bounds 2 (product_max_theoretical_yield (toy_analyzer FVSEOF)))"
proof -
  have k: "(1::int) \<le> 2" by simp
  have y: "product_max_theoretical_yield (toy_analyzer FVSEOF) \<noteq> 0"
    by (simp add: toy_analyzer_def)
  have sink: "product_sink_reaction_id (toy_analyzer FVSEOF) = ''P_fvseof_sink''"
    by (simp add: toy_analyzer_def)
  note t = sweep_levels [OF k, where y = "product_max_theoretical_yield (toy_analyzer FVSEOF)"
      and self = "toy_analyzer FVSEOF" and fa = "toy_fva ''P_fvseof_sink''"
      and ls = "toy_solver ''P_fvseof_sink''" and pf = line_fit and fva = True and np = 1
      and m = "toy_model_with_sink FVSEOF" and s = 0
      and df = "map (\<lambda>x. x\<lparr>essentiality := None\<rparr>) toy_fv_targets"
      and m' = "toy_model_with_sink FVSEOF" and s' = 2 and tr = "[0, 1 / 2]", unfolded sink]
  from t toy_recorded_run
  have a: "[0, 1 / 2] = steps_lower_bounds 2 (product_max_theoretical_yield (toy_analyzer FVSEOF))"
    by blast
  from t have b: "hd (steps_lower_bounds 2 (product_max_theoretical_yield (toy_analyzer FVSEOF))) = 0"
    by blast
  from t y have c: "product_max_theoretical_yield (toy_analyzer FVSEOF)
        \<notin> set (steps_lower_bounds 2 (product_max_theoretical_yield (toy_analyzer FVSEOF)))"
    by blast
  from k a b c toy_recorded_run show ?thesis by simp
qed

text \<open>
  On the small model under the solver that lets nothing flow the maximal theoretical
  yield is \<open>0\<close>, and the single level of a one-step sweep is that full yield.
\<close>

theorem zero_yield_is_probed:
  "fst (init FVSEOF idle_solver ''BIO'' ''P'' (1 / 2) toy_model 0) = Inr idle_analyzer
   \<and> product_max_theoretical_yield idle_analyzer
        \<in> set (steps_lower_bounds 1 (product_max_theoretical_yield idle_analyzer))"
  by code_simp

text \<open>
  Claim C8. \<^verbatim>\<open>FVSEOF.run\<close> has no check of \<open>n_steps\<close> of its own. With \<open>n_steps = 1\<close> the
  only level is \<open>0\<close>, and the fit of a line through points at that single level raises. So
  every one-step run ends in an error and returns no table: no slope of a single point is
  reported as a score. The error comes right after the sweep (the model and the solver are
  as the sweep left them, and no essentiality check has run).
\<close>

theorem single_step_run_raises:
  assumes "\<forall>ys. \<exists>e. pf [0] ys = Inl e"
  shows "steps_lower_bounds 1 (product_max_theoretical_yield self) = [0]
     \<and> (\<exists>e. fst (FVSEOF_run fa ls pf self 1 chk fva np m s) = Inl e)
     \<and> (\<forall>df. fst (FVSEOF_run fa ls pf self 1 chk fva np m s) \<noteq> Inr df)
     \<and> snd (FVSEOF_run fa ls pf self 1 chk fva np m s)
         = snd (sweep fa ls self fva np [0] (map_of (map (\<lambda>i. (i, [])) (reaction_ids m))) m s)"
proof -
  let ?d = "map_of (map (\<lambda>i. (i, [])) (reaction_ids m))"
  have lbs: "steps_lower_bounds 1 (product_max_theoretical_yield self) = [0]"
    by (rule steps_single)
  obtain r m' s' where sw: "sweep fa ls self fva np [0] ?d m s = (r, m', s')"
    by (cases "sweep fa ls self fva np [0] ?d m s") auto
  have run: "\<exists>e. FVSEOF_run fa ls pf self 1 chk fva np m s = (Inl e, m', s')"
  proof (cases r)
    case (Inl e)
    with sw lbs show ?thesis by (simp add: FVSEOF_run_def)
  next
    case (Inr psf)
    from finish_run_raises [where pf = pf and lbs = "[0]" and ls = ls and self = self
        and chk = chk and psf = psf and m = m' and s = s', OF assms] obtain e where
      "finish_run ls pf self chk [0] psf m' s' = (Inl e, m', s')" by blast
    with Inr sw lbs show ?thesis by (simp add: FVSEOF_run_def)
  qed
  then obtain e where e: "FVSEOF_run fa ls pf self 1 chk fva np m s = (Inl e, m', s')"
    by blast
  have "\<exists>e. fst (FVSEOF_run fa ls pf self 1 chk fva np m s) = Inl e"
    using e by simp
  moreover have "\<forall>df. fst (FVSEOF_run fa ls pf self 1 chk fva np m s) \<noteq> Inr df"
    using e by simp
  moreover have "snd (FVSEOF_run fa ls pf self 1 chk fva np m s) = snd (sweep fa ls self fva np [0] ?d m s)"
    using e sw by simp
  ultimately show ?thesis using lbs by blast
qed

theorem single_step_run_raises_witness:
  "(\<forall>ys. \<exists>e. line_fit [0] ys = Inl e)
   \<and> FVSEOF_run (toy_fva ''P_fvseof_sink'') (toy_solver ''P_fvseof_sink'') line_fit
        (toy_analyzer FVSEOF) 1 True True 1 (toy_model_with_sink FVSEOF) 0
      = (Inl (FitError ''undetermined''), toy_model_with_sink FVSEOF, 1)
   \<and> snd (sweep (toy_fva ''P_fvseof_sink'') (toy_solver ''P_fvseof_sink'') (toy_analyzer FVSEOF)
             True 1 [0] (map_of (map (\<lambda>i. (i, [])) (reaction_ids (toy_model_with_sink FVSEOF))))
             (toy_model_with_sink FVSEOF) 0)
      = (toy_model_with_sink FVSEOF, 1)"
proof -
  have fit: "\<forall>ys. \<exists>e. line_fit [0] ys = Inl e"
    by (simp add: line_fit_def)
  from single_step_run_raises [where pf = line_fit and self = "toy_analyzer FVSEOF"
      and fa = "toy_fva ''P_fvseof_sink''" and ls = "toy_solver ''P_fvseof_sink''"
      and chk = True and fva = True and np = 1 and m = "toy_model_with_sink FVSEOF"
      and s = 0, OF fit]
  have "snd (FVSEOF_run (toy_fva ''P_fvseof_sink'') (toy_solver ''P_fvseof_sink'') line_fit
        (toy_analyzer FVSEOF) 1 True True 1 (toy_model_with_sink FVSEOF) 0)
      = snd (sweep (toy_fva ''P_fvseof_sink'') (toy_solver ''P_fvseof_sink'') (toy_analyzer FVSEOF)
             True 1 [0] (map_of (map (\<lambda>i. (i, [])) (reaction_ids (toy_model_with_sink FVSEOF))))
             (toy_model_with_sink FVSEOF) 0)"
    by blast
  with fit toy_single_step_run show ?thesis by simp
qed

end
